theory Spec2Isabelle
  imports Main
begin

section \<open>Values of the wire format\<close>

text \<open>
  The result of \<^verbatim>\<open>JSON.parse\<close>. An object is the list of its own properties; a
  property read takes the first binding of the key. Numbers are carried opaquely: the
  room only ever tests them for truthiness, that is, against zero. The JavaScript value
  \<^verbatim>\<open>undefined\<close> (a property that is not there) is \<open>None\<close> of \<open>json option\<close>.
  Values are kept by value, as trees: an object has no identity beyond its content. The
  one place where the room changes a wire object after storing it is an assignment by a
  client whose user id resolves to an object held by \<^verbatim>\<open>Object.prototype\<close> (see \<open>assign\<close>); a
  copy of that object that a participant's entry took earlier is a separate value here.
\<close>

datatype json =
    JNull
  | JBool bool
  | JNum int
  | JStr string
  | JArr "json list"
  | JObj "(string \<times> json) list"

text \<open>The own property \<open>k\<close> of a value. Primitives and arrays have none of the
  properties the room reads.\<close>

fun own_prop :: "json \<Rightarrow> string \<Rightarrow> json option" where
  "own_prop (JObj kv) k = map_of kv k"
| "own_prop JNull k = None"
| "own_prop (JBool b) k = None"
| "own_prop (JNum n) k = None"
| "own_prop (JStr s) k = None"
| "own_prop (JArr xs) k = None"

fun truthy_json :: "json \<Rightarrow> bool" where
  "truthy_json JNull = False"
| "truthy_json (JBool b) = b"
| "truthy_json (JNum n) = (n \<noteq> 0)"
| "truthy_json (JStr s) = (s \<noteq> [])"
| "truthy_json (JArr xs) = True"
| "truthy_json (JObj kv) = True"

fun truthy :: "json option \<Rightarrow> bool" where
  "truthy None = False"
| "truthy (Some v) = truthy_json v"

fun isArray :: "json option \<Rightarrow> bool" where
  "isArray (Some (JArr xs)) = True"
| "isArray v = False"

text \<open>\<^verbatim>\<open>o.k = v\<close> on an object given by its own properties; assigning \<^verbatim>\<open>undefined\<close> leaves
  a property that reads as \<^verbatim>\<open>undefined\<close> and is not serialised, which is modelled as no
  property.\<close>

definition set_prop :: "(string \<times> json) list \<Rightarrow> string \<Rightarrow> json option \<Rightarrow> (string \<times> json) list" where
  "set_prop kv k v =
     (case v of
        None \<Rightarrow> filter (\<lambda>p. fst p \<noteq> k) kv
      | Some x \<Rightarrow> if k \<in> fst ` set kv
                  then map (\<lambda>p. if fst p = k then (k, x) else p) kv
                  else kv @ [(k, x)])"

section \<open>Object.prototype\<close>

text \<open>
  Parsed objects and the \<^verbatim>\<open>users\<close> object are plain objects: a property that is not their
  own is looked up on \<^verbatim>\<open>Object.prototype\<close>. The listeners assign \<^verbatim>\<open>vote\<close>, \<^verbatim>\<open>name\<close>,
  \<^verbatim>\<open>avatar\<close> and \<^verbatim>\<open>colorId\<close> to whatever \<^verbatim>\<open>this.users[userId]\<close> yields, and for the user id
  \<^verbatim>\<open>__proto__\<close> that is \<^verbatim>\<open>Object.prototype\<close> itself. So these four names, and no other, can
  come to exist on \<^verbatim>\<open>Object.prototype\<close>. An \<open>object_proto\<close> maps each of them that exists
  to its value, \<open>Some None\<close> being a property whose value is \<^verbatim>\<open>undefined\<close>; a read of any
  other name through the prototype finds nothing.
\<close>

type_synonym object_proto = "string \<rightharpoonup> json option"

definition written_names :: "string list" where
  "written_names = [''vote'', ''name'', ''avatar'', ''colorId'']"

text \<open>The members \<^verbatim>\<open>Object.prototype\<close> is born with, all of them functions, apart from the
  accessor \<^verbatim>\<open>__proto__\<close>.\<close>

definition builtin_members :: "string list" where
  "builtin_members = [''constructor'', ''hasOwnProperty'', ''isPrototypeOf'',
     ''propertyIsEnumerable'', ''toLocaleString'', ''toString'', ''valueOf'',
     ''__defineGetter__'', ''__defineSetter__'', ''__lookupGetter__'', ''__lookupSetter__'']"

definition proto_has :: "object_proto \<Rightarrow> string \<Rightarrow> bool" where
  "proto_has P k = (k \<in> set written_names \<and> P k \<noteq> None)"

definition proto_get :: "object_proto \<Rightarrow> string \<Rightarrow> json option" where
  "proto_get P k =
     (if k \<in> set written_names then (case P k of None \<Rightarrow> None | Some v \<Rightarrow> v) else None)"

text \<open>\<^verbatim>\<open>data.k\<close> for a value \<^verbatim>\<open>data\<close> that is not \<^verbatim>\<open>null\<close>, and for \<open>k\<close> one of the names the
  room reads (none of which is a built-in member).\<close>

definition get_prop :: "object_proto \<Rightarrow> json \<Rightarrow> string \<Rightarrow> json option" where
  "get_prop P data k = (case own_prop data k of Some v \<Rightarrow> Some v | None \<Rightarrow> proto_get P k)"

text \<open>\<^verbatim>\<open>k in data\<close> for an object \<^verbatim>\<open>data\<close>.\<close>

definition has_prop :: "object_proto \<Rightarrow> json \<Rightarrow> string \<Rightarrow> bool" where
  "has_prop P data k = (own_prop data k \<noteq> None \<or> proto_has P k)"

section \<open>The room\<close>

text \<open>
  \<^verbatim>\<open>User\<close>: the handlers store whatever the message carries, so \<open>name\<close>, \<open>vote\<close>,
  \<open>avatar\<close> and \<open>colorId\<close> hold wire values. \<open>vote = Some JNull\<close> is the vote
  \<^verbatim>\<open>null\<close>; \<open>None\<close> is \<^verbatim>\<open>undefined\<close>. All six are own properties of the object that
  \<^verbatim>\<open>handleSession\<close> creates.
\<close>

record user =
  idU :: string
  name :: json
  vote :: "json option"
  avatar :: "json option"
  colorId :: json
  isSpectator :: bool

text \<open>\<^verbatim>\<open>Session\<close>: a socket is identified by a number; every accepted connection has its
  own socket.\<close>

record session =
  socket :: nat
  userId :: string

text \<open>The fields of \<^verbatim>\<open>PokerRoom\<close>, and the state of \<^verbatim>\<open>Object.prototype\<close> that its
  listeners read and write. \<open>users\<close> holds the own properties of \<^verbatim>\<open>this.users\<close>, the
  participants. \<open>activeCustomDeck = None\<close> is \<^verbatim>\<open>null\<close>; \<open>deckId = None\<close> is \<^verbatim>\<open>undefined\<close>
  (a \<^verbatim>\<open>setDeck\<close> without \<^verbatim>\<open>deckId\<close>).\<close>

record room =
  sessions :: "session list"
  users :: "string \<rightharpoonup> user"
  userList :: "string list"
  revealed :: bool
  deckId :: "json option"
  activeCustomDeck :: "json option"
  objectProto :: object_proto

definition init_room :: room where
  "init_room = \<lparr> sessions = [], users = Map.empty, userList = [], revealed = False,
     deckId = Some (JStr ''fibonacci''), activeCustomDeck = None, objectProto = Map.empty \<rparr>"

text \<open>
  What \<^verbatim>\<open>this.users[userId]\<close> yields when it is truthy: a participant's own entry; for
  \<^verbatim>\<open>__proto__\<close>, \<^verbatim>\<open>Object.prototype\<close>; for the name of a built-in member, that function; for
  one of the four written names, the truthy value \<^verbatim>\<open>Object.prototype\<close> holds under it.
\<close>

datatype user_ref =
    Entry user
  | ObjectPrototype
  | BuiltinFunction
  | Inherited json

text \<open>\<^verbatim>\<open>this.users[uid]\<close>, \<open>None\<close> when the value is falsy.\<close>

definition users_get :: "room \<Rightarrow> string \<Rightarrow> user_ref option" where
  "users_get st uid =
     (case users st uid of
        Some u \<Rightarrow> Some (Entry u)
      | None \<Rightarrow>
          if uid = ''__proto__'' then Some ObjectPrototype
          else if uid \<in> set builtin_members then Some BuiltinFunction
          else (case proto_get (objectProto st) uid of
                  None \<Rightarrow> None
                | Some v \<Rightarrow> if truthy_json v then Some (Inherited v) else None))"

text \<open>\<^verbatim>\<open>user.isSpectator\<close> as a condition. No listener assigns \<^verbatim>\<open>isSpectator\<close>, so only an
  entry, or an object that came off the wire with such a property, has one.\<close>

fun spectator_of :: "user_ref \<Rightarrow> bool" where
  "spectator_of (Entry u) = isSpectator u"
| "spectator_of ObjectPrototype = False"
| "spectator_of BuiltinFunction = False"
| "spectator_of (Inherited v) = truthy (own_prop v ''isSpectator'')"

section \<open>Messages sent to clients\<close>

datatype js_error =
    SyntaxError string
  | TypeError_null
  | TypeError_readonly
  | TypeError_primitive

datatype outmsg =
    StateMsg "user_ref list" bool "json option" "json option"
  | ErrorMsg js_error
  | RawMsg string

text \<open>One call of \<^verbatim>\<open>socket.send\<close>: the socket and the message. The trace of an event is
  the list of the calls made, whether the call threw or not.\<close>

type_synonym send = "nat \<times> outmsg"

text \<open>Whether \<^verbatim>\<open>socket.send\<close> throws: \<open>env n s\<close> says that the send to socket \<open>s\<close> in
  pass \<open>n\<close> of a broadcast throws.\<close>

type_synonym env = "nat \<Rightarrow> nat \<Rightarrow> bool"

section \<open>broadcastState\<close>

definition state_message :: "room \<Rightarrow> outmsg" where
  "state_message st =
     StateMsg (List.map_filter (users_get st) (userList st)) (revealed st) (deckId st)
       (activeCustomDeck st)"

text \<open>The body of \<^verbatim>\<open>deadSessions.forEach\<close>.\<close>

definition remove_dead :: "session \<Rightarrow> room \<Rightarrow> room" where
  "remove_dead s st =
     (let userHasOtherSessions = list_ex (\<lambda>active. userId active = userId s) (sessions st)
      in if \<not> userHasOtherSessions
         then st\<lparr> users := (users st)(userId s := None),
                  userList := filter (\<lambda>i. i \<noteq> userId s) (userList st) \<rparr>
         else st)"

text \<open>The first two statements under \<^verbatim>\<open>if (deadSessions.length > 0)\<close>.\<close>

definition reconcile :: "session list \<Rightarrow> room \<Rightarrow> room" where
  "reconcile deadSessions st =
     fold remove_dead deadSessions
       (st\<lparr> sessions := filter (\<lambda>s. s \<notin> set deadSessions) (sessions st) \<rparr>)"

definition dead_sessions :: "env \<Rightarrow> nat \<Rightarrow> room \<Rightarrow> session list" where
  "dead_sessions env n st = filter (\<lambda>s. env n (socket s)) (sessions st)"

definition build_message :: "string option \<Rightarrow> room \<Rightarrow> outmsg" where
  "build_message message st =
     (case message of
        None \<Rightarrow> state_message st
      | Some m \<Rightarrow> if m = [] then state_message st else RawMsg m)"

text \<open>\<^verbatim>\<open>broadcastState(message?)\<close>, pass \<open>n\<close>. The method calls itself after a pass with a
  failed send; \<open>None\<close> is the call that never returns.\<close>

partial_function (option) broadcastState ::
  "env \<Rightarrow> nat \<Rightarrow> string option \<Rightarrow> room \<Rightarrow> (room \<times> send list) option" where
  "broadcastState env n message st =
     (let msg = build_message message st;
          out = map (\<lambda>s. (socket s, msg)) (sessions st);
          deadSessions = dead_sessions env n st
      in if deadSessions \<noteq> []
         then Option.bind (broadcastState env (Suc n) None (reconcile deadSessions st))
                (\<lambda>r. Some (fst r, out @ snd r))
         else Some (st, out))"

section \<open>handleSession and its listeners\<close>

definition new_user :: "string \<Rightarrow> bool \<Rightarrow> user" where
  "new_user uid spec =
     \<lparr> idU = uid, name = JStr (''User '' @ take 4 uid), vote = Some JNull, avatar = None,
       colorId = JStr ''default'', isSpectator = spec \<rparr>"

text \<open>The statements of \<^verbatim>\<open>handleSession\<close> before its broadcast. The entry is created when
  \<^verbatim>\<open>this.users[userId]\<close> is falsy, which it never is for \<^verbatim>\<open>__proto__\<close>, for a built-in
  member, or for a written name with a truthy value.\<close>

definition register :: "nat \<Rightarrow> string \<Rightarrow> bool \<Rightarrow> room \<Rightarrow> room" where
  "register sock uid spec st =
     (let st1 = st\<lparr> sessions := sessions st @ [\<lparr> socket = sock, userId = uid \<rparr>] \<rparr>
      in case users_get st1 uid of
           None \<Rightarrow> st1\<lparr> users := (users st1)(uid \<mapsto> new_user uid spec),
                        userList := userList st1 @ [uid] \<rparr>
         | Some r \<Rightarrow> st1)"

definition handleSession ::
  "env \<Rightarrow> nat \<Rightarrow> string \<Rightarrow> bool \<Rightarrow> room \<Rightarrow> (room \<times> send list) option" where
  "handleSession env sock uid spec st = broadcastState env 0 None (register sock uid spec st)"

definition resolveHost :: "room \<Rightarrow> string option" where
  "resolveHost st =
     List.find (\<lambda>i. case users_get st i of None \<Rightarrow> False | Some r \<Rightarrow> \<not> spectator_of r)
       (userList st)"

text \<open>\<^verbatim>\<open>for (const u of Object.values(this.users)) u.vote = null\<close>: the own entries.\<close>

definition clear_votes :: "(string \<rightharpoonup> user) \<Rightarrow> (string \<rightharpoonup> user)" where
  "clear_votes us = (\<lambda>i. map_option (\<lambda>u. u\<lparr> vote := Some JNull \<rparr>) (us i))"

text \<open>\<^verbatim>\<open>deck && deck.id && deck.name && Array.isArray(deck.cards)\<close>\<close>

definition valid_deck :: "object_proto \<Rightarrow> json \<Rightarrow> bool" where
  "valid_deck P d =
     (truthy_json d \<and> truthy (get_prop P d ''id'') \<and> truthy (get_prop P d ''name'')
      \<and> isArray (get_prop P d ''cards''))"

text \<open>An assignment \<^verbatim>\<open>user.vote = v\<close>, \<^verbatim>\<open>user.name = v\<close>, \<^verbatim>\<open>user.avatar = v\<close> or
  \<^verbatim>\<open>user.colorId = v\<close> of the message listener.\<close>

datatype assignment =
    SetVote "json option"
  | SetName json
  | SetAvatar "json option"
  | SetColorId json

fun assigned_name :: "assignment \<Rightarrow> string" where
  "assigned_name (SetVote v) = ''vote''"
| "assigned_name (SetName v) = ''name''"
| "assigned_name (SetAvatar v) = ''avatar''"
| "assigned_name (SetColorId v) = ''colorId''"

fun assigned_value :: "assignment \<Rightarrow> json option" where
  "assigned_value (SetVote v) = v"
| "assigned_value (SetName v) = Some v"
| "assigned_value (SetAvatar v) = v"
| "assigned_value (SetColorId v) = Some v"

fun assign_entry :: "assignment \<Rightarrow> user \<Rightarrow> user" where
  "assign_entry (SetVote v) u = u\<lparr> vote := v \<rparr>"
| "assign_entry (SetName v) u = u\<lparr> name := v \<rparr>"
| "assign_entry (SetAvatar v) u = u\<lparr> avatar := v \<rparr>"
| "assign_entry (SetColorId v) u = u\<lparr> colorId := v \<rparr>"

text \<open>
  The assignment \<open>a\<close> to \<^verbatim>\<open>user\<close>, the value of \<^verbatim>\<open>this.users[uid]\<close>; the result is the
  error thrown, if any, and the room at that point. The listeners are class code, hence
  strict: assigning to the read-only \<^verbatim>\<open>name\<close> of a function throws, and so does creating
  a property on a primitive. Other properties put on a built-in function, and properties
  put on an array, are never read again and are not kept. An object that
  \<^verbatim>\<open>Object.prototype\<close> holds under \<open>uid\<close> is changed where it is held.
\<close>

definition assign :: "string \<Rightarrow> assignment \<Rightarrow> room \<Rightarrow> js_error option \<times> room" where
  "assign uid a st =
     (case users_get st uid of
        None \<Rightarrow> (None, st)
      | Some (Entry u) \<Rightarrow> (None, st\<lparr> users := (users st)(uid \<mapsto> assign_entry a u) \<rparr>)
      | Some ObjectPrototype \<Rightarrow>
          (None, st\<lparr> objectProto := (objectProto st)(assigned_name a \<mapsto> assigned_value a) \<rparr>)
      | Some BuiltinFunction \<Rightarrow>
          (if assigned_name a = ''name'' then (Some TypeError_readonly, st) else (None, st))
      | Some (Inherited v) \<Rightarrow>
          (case v of
             JObj kv \<Rightarrow>
               (None, st\<lparr> objectProto := (objectProto st)
                   (uid \<mapsto> Some (JObj (set_prop kv (assigned_name a) (assigned_value a)))) \<rparr>)
           | JArr xs \<Rightarrow> (None, st)
           | JNull \<Rightarrow> (Some TypeError_primitive, st)
           | JBool b \<Rightarrow> (Some TypeError_primitive, st)
           | JNum n \<Rightarrow> (Some TypeError_primitive, st)
           | JStr s \<Rightarrow> (Some TypeError_primitive, st)))"

text \<open>A statement that runs only if nothing was thrown before it.\<close>

definition and_then ::
  "js_error option \<times> room \<Rightarrow> (room \<Rightarrow> js_error option \<times> room) \<Rightarrow> js_error option \<times> room" where
  "and_then r f = (case fst r of None \<Rightarrow> f (snd r) | Some e \<Rightarrow> r)"

text \<open>The three statements of \<^verbatim>\<open>case 'setProfile'\<close> before its broadcast.\<close>

definition set_name :: "string \<Rightarrow> json \<Rightarrow> room \<Rightarrow> js_error option \<times> room" where
  "set_name uid data st =
     (case get_prop (objectProto st) data ''name'' of
        None \<Rightarrow> (None, st)
      | Some v \<Rightarrow> if truthy_json v then assign uid (SetName v) st else (None, st))"

definition set_avatar :: "string \<Rightarrow> json \<Rightarrow> room \<Rightarrow> js_error option \<times> room" where
  "set_avatar uid data st =
     (if has_prop (objectProto st) data ''avatar''
      then assign uid
             (SetAvatar (case get_prop (objectProto st) data ''avatar'' of
                           None \<Rightarrow> None
                         | Some v \<Rightarrow> if truthy_json v then Some v else None)) st
      else (None, st))"

definition set_colorId :: "string \<Rightarrow> json \<Rightarrow> room \<Rightarrow> js_error option \<times> room" where
  "set_colorId uid data st =
     (if has_prop (objectProto st) data ''colorId''
      then assign uid
             (SetColorId (case get_prop (objectProto st) data ''colorId'' of
                            None \<Rightarrow> JStr ''default''
                          | Some v \<Rightarrow> if truthy_json v then v else JStr ''default'')) st
      else (None, st))"

definition set_profile :: "string \<Rightarrow> json \<Rightarrow> room \<Rightarrow> js_error option \<times> room" where
  "set_profile uid data st =
     and_then (and_then (set_name uid data st) (set_avatar uid data)) (set_colorId uid data)"

text \<open>What the message listener receives: text that \<^verbatim>\<open>JSON.parse\<close> rejects with an error
  message, or the parsed value.\<close>

datatype payload =
    Unparseable string
  | Parsed json

text \<open>The end of a \<^verbatim>\<open>case\<close> that assigns and then broadcasts: an error thrown by the
  assignment is caught by the listener, which sends the error envelope to its own socket
  and does not broadcast.\<close>

definition then_broadcast ::
  "env \<Rightarrow> nat \<Rightarrow> js_error option \<times> room \<Rightarrow> (room \<times> send list) option" where
  "then_broadcast env sock r =
     (case fst r of
        None \<Rightarrow> broadcastState env 0 None (snd r)
      | Some e \<Rightarrow> Some (snd r, [(sock, ErrorMsg e)]))"

text \<open>The \<^verbatim>\<open>switch\<close> of the message listener of socket \<open>sock\<close>, for a message \<open>data\<close> of
  type \<open>t\<close> from \<open>uid\<close>, \<^verbatim>\<open>this.users[uid]\<close> being \<open>user\<close>.\<close>

definition dispatch ::
  "env \<Rightarrow> nat \<Rightarrow> string \<Rightarrow> user_ref \<Rightarrow> string \<Rightarrow> json \<Rightarrow> room \<Rightarrow> (room \<times> send list) option" where
  "dispatch env sock uid user t data st =
     (let isHost = (resolveHost st = Some uid) in
      if t = ''vote'' then
        (if spectator_of user then Some (st, [])
         else then_broadcast env sock
                (assign uid (SetVote (get_prop (objectProto st) data ''card'')) st))
      else if t = ''reveal'' then
        (if isHost then broadcastState env 0 None (st\<lparr> revealed := True \<rparr>)
         else Some (st, []))
      else if t = ''reset'' then
        (if isHost
         then broadcastState env 0 None
                (st\<lparr> revealed := False, users := clear_votes (users st) \<rparr>)
         else Some (st, []))
      else if t = ''setProfile'' then
        then_broadcast env sock (set_profile uid data st)
      else if t = ''setDeck'' then
        (if isHost
         then broadcastState env 0 None
                (st\<lparr> deckId := get_prop (objectProto st) data ''deckId'',
                     activeCustomDeck := None,
                     revealed := False, users := clear_votes (users st) \<rparr>)
         else Some (st, []))
      else if t = ''setCustomDeck'' then
        (if isHost
         then (case get_prop (objectProto st) data ''deck'' of
                 None \<Rightarrow> Some (st, [])
               | Some deck \<Rightarrow>
                   if valid_deck (objectProto st) deck
                   then broadcastState env 0 None
                          (st\<lparr> activeCustomDeck := Some deck,
                               deckId := get_prop (objectProto st) deck ''id'',
                               revealed := False, users := clear_votes (users st) \<rparr>)
                   else Some (st, []))
         else Some (st, []))
      else Some (st, []))"

text \<open>The message listener of the socket \<open>sock\<close> accepted for \<open>uid\<close>. Reading
  \<^verbatim>\<open>data.type\<close> of \<^verbatim>\<open>null\<close> throws inside the \<^verbatim>\<open>try\<close>; \<^verbatim>\<open>type\<close> is never inherited, so a
  primitive or an array has no type.\<close>

definition on_message ::
  "env \<Rightarrow> nat \<Rightarrow> string \<Rightarrow> payload \<Rightarrow> room \<Rightarrow> (room \<times> send list) option" where
  "on_message env sock uid p st =
     (case p of
        Unparseable e \<Rightarrow> Some (st, [(sock, ErrorMsg (SyntaxError e))])
      | Parsed data \<Rightarrow>
          (case users_get st uid of
             None \<Rightarrow> Some (st, [])
           | Some user \<Rightarrow>
               (case data of
                  JNull \<Rightarrow> Some (st, [(sock, ErrorMsg TypeError_null)])
                | JBool b \<Rightarrow> Some (st, [])
                | JNum n \<Rightarrow> Some (st, [])
                | JStr s \<Rightarrow> Some (st, [])
                | JArr xs \<Rightarrow> Some (st, [])
                | JObj kv \<Rightarrow>
                    (case get_prop (objectProto st) data ''type'' of
                       Some (JStr t) \<Rightarrow> dispatch env sock uid user t data st
                     | _ \<Rightarrow> Some (st, [])))))"

text \<open>The statements of the close listener before its broadcast.\<close>

definition unregister :: "nat \<Rightarrow> string \<Rightarrow> room \<Rightarrow> room" where
  "unregister sock uid st =
     (let st1 = st\<lparr> sessions := filter (\<lambda>s. socket s \<noteq> sock) (sessions st) \<rparr>
      in if \<not> list_ex (\<lambda>s. userId s = uid) (sessions st1)
         then st1\<lparr> users := (users st1)(uid := None),
                   userList := filter (\<lambda>i. i \<noteq> uid) (userList st1) \<rparr>
         else st1)"

definition on_close :: "env \<Rightarrow> nat \<Rightarrow> string \<Rightarrow> room \<Rightarrow> (room \<times> send list) option" where
  "on_close env sock uid st = broadcastState env 0 None (unregister sock uid st)"

section \<open>Reachable rooms\<close>

text \<open>
  The platform runs the events of one room one at a time. \<^verbatim>\<open>fetch\<close> rejects a request
  without a \<^verbatim>\<open>userId\<close> and otherwise hands a fresh socket to \<^verbatim>\<open>handleSession\<close>; the
  listeners of a socket keep the \<^verbatim>\<open>userId\<close> it was accepted for. \<open>reachable L st\<close>: the room
  \<open>st\<close> after some events, \<open>L ! s\<close> being the user id that socket \<open>s\<close> was accepted for.
  Every event has its own \<open>env\<close>. A message or close event may come from any accepted
  socket, also one that closed before, which only adds rooms. \<^verbatim>\<open>Object.prototype\<close> belongs
  to the isolate and not to the room: between two events of this room, the same
  listeners running for another room may have written its four names.
\<close>

inductive reachable :: "string list \<Rightarrow> room \<Rightarrow> bool" where
  r_init: "reachable [] init_room"
| r_connect: "reachable L st \<Longrightarrow> uid \<noteq> [] \<Longrightarrow>
     handleSession env (length L) uid spec st = Some (st', out) \<Longrightarrow>
     reachable (L @ [uid]) st'"
| r_message: "reachable L st \<Longrightarrow> sock < length L \<Longrightarrow>
     on_message env sock (L ! sock) p st = Some (st', out) \<Longrightarrow>
     reachable L st'"
| r_close: "reachable L st \<Longrightarrow> sock < length L \<Longrightarrow>
     on_close env sock (L ! sock) st = Some (st', out) \<Longrightarrow>
     reachable L st'"
| r_isolate: "reachable L st \<Longrightarrow> reachable L (st\<lparr> objectProto := P \<rparr>)"

section \<open>Invariants\<close>

text \<open>Join order and participant map name the same ids, each once.\<close>

definition list_ok :: "room \<Rightarrow> bool" where
  "list_ok st = (distinct (userList st) \<and> set (userList st) = dom (users st))"

text \<open>A custom deck, when held, carries the active deck id as its own \<^verbatim>\<open>id\<close>, and that
  id is truthy.\<close>

definition deck_ok :: "room \<Rightarrow> bool" where
  "deck_ok st =
     (\<forall>d. activeCustomDeck st = Some d \<longrightarrow>
            deckId st = own_prop d ''id'' \<and> truthy (own_prop d ''id''))"


text \<open>What the \<^verbatim>\<open>switch\<close> does before it broadcasts: \<open>None\<close> when the listener changes nothing
  and does not broadcast, otherwise the error thrown, if any, and the room.\<close>

definition applied ::
  "string \<Rightarrow> user_ref \<Rightarrow> string \<Rightarrow> json \<Rightarrow> room \<Rightarrow> (js_error option \<times> room) option" where
  "applied uid user t data st =
     (let isHost = (resolveHost st = Some uid) in
      if t = ''vote'' then
        (if spectator_of user then None
         else Some (assign uid (SetVote (get_prop (objectProto st) data ''card'')) st))
      else if t = ''reveal'' then (if isHost then Some (None, st\<lparr> revealed := True \<rparr>) else None)
      else if t = ''reset'' then
        (if isHost then Some (None, st\<lparr> revealed := False, users := clear_votes (users st) \<rparr>)
         else None)
      else if t = ''setProfile'' then Some (set_profile uid data st)
      else if t = ''setDeck'' then
        (if isHost
         then Some (None, st\<lparr> deckId := get_prop (objectProto st) data ''deckId'',
                     activeCustomDeck := None,
                     revealed := False, users := clear_votes (users st) \<rparr>)
         else None)
      else if t = ''setCustomDeck'' then
        (if isHost
         then (case get_prop (objectProto st) data ''deck'' of
                 None \<Rightarrow> None
               | Some deck \<Rightarrow>
                   if valid_deck (objectProto st) deck
                   then Some (None, st\<lparr> activeCustomDeck := Some deck,
                               deckId := get_prop (objectProto st) deck ''id'',
                               revealed := False, users := clear_votes (users st) \<rparr>)
                   else None)
         else None)
      else None)"

text \<open>What the three statements of \<^verbatim>\<open>case 'setProfile'\<close> make of a participant's entry,
  \<open>P\<close> being \<^verbatim>\<open>Object.prototype\<close>.\<close>

definition profile_entry :: "object_proto \<Rightarrow> json \<Rightarrow> user \<Rightarrow> user" where
  "profile_entry P data u =
     u\<lparr> name := (case get_prop P data ''name'' of
                   None \<Rightarrow> name u
                 | Some v \<Rightarrow> if truthy_json v then v else name u),
        avatar := (if has_prop P data ''avatar''
                   then (case get_prop P data ''avatar'' of
                           None \<Rightarrow> None
                         | Some v \<Rightarrow> if truthy_json v then Some v else None)
                   else avatar u),
        colorId := (if has_prop P data ''colorId''
                    then (case get_prop P data ''colorId'' of
                            None \<Rightarrow> JStr ''default''
                          | Some v \<Rightarrow> if truthy_json v then v else JStr ''default'')
                    else colorId u) \<rparr>"

text \<open>Two rooms that differ at most in the fields of participants and in
  \<^verbatim>\<open>Object.prototype\<close>.\<close>

definition same_frame :: "room \<Rightarrow> room \<Rightarrow> bool" where
  "same_frame st st1 = (sessions st1 = sessions st \<and> userList st1 = userList st
       \<and> dom (users st1) = dom (users st)
       \<and> revealed st1 = revealed st \<and> deckId st1 = deckId st
       \<and> activeCustomDeck st1 = activeCustomDeck st)"

section \<open>Example rooms\<close>

text \<open>No send throws.\<close>

definition no_fail :: env where
  "no_fail = (\<lambda>n s. False)"


text \<open>Alice has connected as a voter.\<close>

definition room_a :: room where
  "room_a = \<lparr> sessions = [\<lparr> socket = 0, userId = ''alice'' \<rparr>],
     users = [''alice'' \<mapsto> new_user ''alice'' False], userList = [''alice''],
     revealed = False, deckId = Some (JStr ''fibonacci''), activeCustomDeck = None,
     objectProto = Map.empty \<rparr>"

text \<open>Alice has connected as a voter, then Bob as a spectator.\<close>

definition room_ab :: room where
  "room_ab = \<lparr> sessions = [\<lparr> socket = 0, userId = ''alice'' \<rparr>, \<lparr> socket = 1, userId = ''bob'' \<rparr>],
     users = [''alice'' \<mapsto> new_user ''alice'' False, ''bob'' \<mapsto> new_user ''bob'' True],
     userList = [''alice'', ''bob''],
     revealed = False, deckId = Some (JStr ''fibonacci''), activeCustomDeck = None,
     objectProto = Map.empty \<rparr>"

text \<open>Bob has connected as a spectator and is alone.\<close>

definition room_b :: room where
  "room_b = \<lparr> sessions = [\<lparr> socket = 0, userId = ''bob'' \<rparr>],
     users = [''bob'' \<mapsto> new_user ''bob'' True], userList = [''bob''],
     revealed = False, deckId = Some (JStr ''fibonacci''), activeCustomDeck = None,
     objectProto = Map.empty \<rparr>"


text \<open>Alice and Bob as in \<open>room_ab\<close>; Alice has voted and revealed.\<close>

definition room_revealed :: room where
  "room_revealed = \<lparr> sessions = [\<lparr> socket = 0, userId = ''alice'' \<rparr>, \<lparr> socket = 1, userId = ''bob'' \<rparr>],
     users = [''alice'' \<mapsto> (new_user ''alice'' False)\<lparr> vote := Some (JStr ''5'') \<rparr>,
              ''bob'' \<mapsto> new_user ''bob'' True],
     userList = [''alice'', ''bob''],
     revealed = True, deckId = Some (JStr ''fibonacci''), activeCustomDeck = None,
     objectProto = Map.empty \<rparr>"

text \<open>Alice alone, after she has set her name to \<^verbatim>\<open>Al\<close>.\<close>

definition room_named :: room where
  "room_named = \<lparr> sessions = [\<lparr> socket = 0, userId = ''alice'' \<rparr>],
     users = [''alice'' \<mapsto> (new_user ''alice'' False)\<lparr> name := JStr ''Al'' \<rparr>],
     userList = [''alice''],
     revealed = False, deckId = Some (JStr ''fibonacci''), activeCustomDeck = None,
     objectProto = Map.empty \<rparr>"

text \<open>A custom deck, and Alice alone after she has selected it.\<close>

definition custom_deck :: json where
  "custom_deck = JObj [(''id'', JStr ''tshirt''), (''name'', JStr ''T-shirt sizes''),
     (''cards'', JArr [JObj [(''value'', JStr ''S''), (''color'', JStr ''blue'')],
                       JObj [(''value'', JStr ''M''), (''color'', JStr ''green'')]])]"

definition room_custom :: room where
  "room_custom = room_a\<lparr> activeCustomDeck := Some custom_deck, deckId := Some (JStr ''tshirt''),
     revealed := False, users := clear_votes (users room_a) \<rparr>"

text \<open>Alice, named \<^verbatim>\<open>Al\<close>, and a second client that connected with the user id
  \<^verbatim>\<open>__proto__\<close>: it has a session and no entry.\<close>

definition room_guest :: room where
  "room_guest = \<lparr> sessions = [\<lparr> socket = 0, userId = ''alice'' \<rparr>,
                              \<lparr> socket = 1, userId = ''__proto__'' \<rparr>],
     users = [''alice'' \<mapsto> (new_user ''alice'' False)\<lparr> name := JStr ''Al'' \<rparr>],
     userList = [''alice''],
     revealed = False, deckId = Some (JStr ''fibonacci''), activeCustomDeck = None,
     objectProto = Map.empty \<rparr>"

text \<open>The same room after that client has sent \<^verbatim>\<open>setProfile\<close> with the name \<^verbatim>\<open>Eve\<close> and
  an avatar that is \<^verbatim>\<open>null\<close>.\<close>

definition room_polluted :: room where
  "room_polluted = room_guest\<lparr> objectProto :=
     [''name'' \<mapsto> Some (JStr ''Eve''), ''avatar'' \<mapsto> None] \<rparr>"

section \<open>The broadcast loop\<close>

lemma sessions_remove_dead: "sessions (remove_dead s st) = sessions st"
  by (simp add: remove_dead_def Let_def)

lemma sessions_fold_remove_dead: "sessions (fold remove_dead d st) = sessions st"
  by (induction d arbitrary: st) (simp_all add: sessions_remove_dead)

lemma sessions_reconcile:
  "sessions (reconcile d st) = filter (\<lambda>s. s \<notin> set d) (sessions st)"
  by (simp add: reconcile_def sessions_fold_remove_dead)

lemma reconcile_shrinks:
  assumes "dead_sessions env n st \<noteq> []"
  shows "length (sessions (reconcile (dead_sessions env n st) st)) < length (sessions st)"
proof -
  from assms obtain s where s: "s \<in> set (dead_sessions env n st)"
    by (cases "dead_sessions env n st") auto
  then have "s \<in> set (sessions st)" by (simp add: dead_sessions_def)
  with s show ?thesis
    unfolding sessions_reconcile by (intro length_filter_less[of s]) auto
qed

lemma broadcastState_returns: "\<exists>r. broadcastState env n message st = Some r"
proof (induction "length (sessions st)" arbitrary: st n message rule: less_induct)
  case less
  show ?case
  proof (cases "dead_sessions env n st = []")
    case True
    then show ?thesis by (subst broadcastState.simps) (simp add: Let_def)
  next
    case False
    from less[OF reconcile_shrinks[OF False], of "Suc n" None]
    obtain r where "broadcastState env (Suc n) None (reconcile (dead_sessions env n st) st) = Some r"
      by blast
    with False show ?thesis by (subst broadcastState.simps) (simp add: Let_def)
  qed
qed

lemma broadcastState_invariant:
  assumes "broadcastState env n message st = Some (st', out)"
    and "P st"
    and step: "\<And>k s. P s \<Longrightarrow> dead_sessions env k s \<noteq> [] \<Longrightarrow> P (reconcile (dead_sessions env k s) s)"
  shows "P st'"
  using assms(1,2)
proof (induction "length (sessions st)" arbitrary: st n message out rule: less_induct)
  case less
  show ?case
  proof (cases "dead_sessions env n st = []")
    case True
    with less.prems show ?thesis by (subst (asm) broadcastState.simps) (simp add: Let_def)
  next
    case False
    from less.prems(1) False obtain r where
      r: "broadcastState env (Suc n) None (reconcile (dead_sessions env n st) st) = Some r"
      and st': "st' = fst r"
      by (subst (asm) broadcastState.simps) (auto simp: Let_def split: Option.bind_splits)
    from less.hyps[OF reconcile_shrinks[OF False], of "Suc n" None "snd r"] r st'
      step[OF less.prems(2) False]
    show ?thesis by simp
  qed
qed

lemma broadcast_no_dead:
  "dead_sessions env n st = [] \<Longrightarrow>
   broadcastState env n m st = Some (st, map (\<lambda>s. (socket s, build_message m st)) (sessions st))"
  by (subst broadcastState.simps) (simp add: Let_def)


lemma broadcast_no_fail:
  "broadcastState no_fail n m st
     = Some (st, map (\<lambda>s. (socket s, build_message m st)) (sessions st))"
  by (rule broadcast_no_dead) (simp add: dead_sessions_def no_fail_def)

lemma list_ex_userId: "list_ex (\<lambda>a. userId a = i) xs \<longleftrightarrow> i \<in> userId ` set xs"
  by (auto simp: list_ex_iff)

lemma users_fold_remove_dead:
  "users (fold remove_dead d st) i =
     (if i \<in> userId ` set d \<and> i \<notin> userId ` set (sessions st) then None else users st i)"
proof (induction d arbitrary: st)
  case Nil
  show ?case by simp
next
  case (Cons s d)
  show ?case
    by (simp add: Cons.IH sessions_remove_dead)
       (auto simp: remove_dead_def Let_def list_ex_userId)
qed

lemma userList_fold_remove_dead:
  "userList (fold remove_dead d st) =
     filter (\<lambda>i. \<not> (i \<in> userId ` set d \<and> i \<notin> userId ` set (sessions st))) (userList st)"
proof (induction d arbitrary: st)
  case Nil
  show ?case by simp
next
  case (Cons s d)
  show ?case
    by (simp add: Cons.IH sessions_remove_dead)
       (auto simp: remove_dead_def Let_def list_ex_userId image_iff intro!: filter_cong)
qed

lemma users_reconcile:
  "users (reconcile d st) i =
     (if i \<in> userId ` set d \<and> i \<notin> userId ` (set (sessions st) - set d) then None
      else users st i)"
proof -
  have "set (filter (\<lambda>s. s \<notin> set d) (sessions st)) = set (sessions st) - set d" by auto
  then show ?thesis by (simp add: reconcile_def users_fold_remove_dead)
qed

lemma userList_reconcile:
  "userList (reconcile d st) =
     filter (\<lambda>i. \<not> (i \<in> userId ` set d \<and> i \<notin> userId ` (set (sessions st) - set d)))
       (userList st)"
proof -
  have "set (filter (\<lambda>s. s \<notin> set d) (sessions st)) = set (sessions st) - set d" by auto
  then show ?thesis by (simp add: reconcile_def userList_fold_remove_dead)
qed

lemma rest_remove_dead:
  "deckId (remove_dead s st) = deckId st" "activeCustomDeck (remove_dead s st) = activeCustomDeck st"
  "revealed (remove_dead s st) = revealed st" "objectProto (remove_dead s st) = objectProto st"
  by (simp_all add: remove_dead_def Let_def)

lemma rest_fold:
  "deckId (fold remove_dead d st) = deckId st \<and> activeCustomDeck (fold remove_dead d st) = activeCustomDeck st
   \<and> revealed (fold remove_dead d st) = revealed st
   \<and> objectProto (fold remove_dead d st) = objectProto st"
  by (induction d arbitrary: st) (simp_all add: rest_remove_dead)

lemma rest_reconcile:
  "deckId (reconcile d st) = deckId st" "activeCustomDeck (reconcile d st) = activeCustomDeck st"
  "revealed (reconcile d st) = revealed st" "objectProto (reconcile d st) = objectProto st"
  by (simp_all add: reconcile_def rest_fold)

lemma rest_broadcast:
  assumes "broadcastState env n m st = Some (st', out)"
  shows "deckId st' = deckId st \<and> activeCustomDeck st' = activeCustomDeck st
         \<and> revealed st' = revealed st \<and> objectProto st' = objectProto st"
  by (rule broadcastState_invariant[OF assms,
        where P = "\<lambda>s. deckId s = deckId st \<and> activeCustomDeck s = activeCustomDeck st
          \<and> revealed s = revealed st \<and> objectProto s = objectProto st"])
     (simp_all add: rest_reconcile)

lemma broadcast_only_removes:
  assumes "broadcastState env n m st = Some (st', out)"
  shows "(users st' i = None \<or> users st' i = users st i) \<and> set (userList st') \<subseteq> set (userList st)
         \<and> set (sessions st') \<subseteq> set (sessions st)"
  by (rule broadcastState_invariant[OF assms,
        where P = "\<lambda>s. (users s i = None \<or> users s i = users st i) \<and> set (userList s) \<subseteq> set (userList st)
           \<and> set (sessions s) \<subseteq> set (sessions st)"])
     (auto simp: users_reconcile userList_reconcile sessions_reconcile)

lemma broadcast_keeps_live:
  assumes "broadcastState env n m st = Some (st', out)"
    and "s \<in> set (sessions st)" and "\<forall>k. \<not> env k (socket s)"
  shows "s \<in> set (sessions st') \<and> users st' (userId s) = users st (userId s)
         \<and> (userId s \<in> set (userList st') \<longleftrightarrow> userId s \<in> set (userList st))"
proof (rule broadcastState_invariant[OF assms(1),
        where P = "\<lambda>x. s \<in> set (sessions x) \<and> users x (userId s) = users st (userId s)
         \<and> (userId s \<in> set (userList x) \<longleftrightarrow> userId s \<in> set (userList st))"])
  show "s \<in> set (sessions st) \<and> users st (userId s) = users st (userId s)
         \<and> (userId s \<in> set (userList st) \<longleftrightarrow> userId s \<in> set (userList st))"
    using assms(2) by simp
next
  fix k and x :: room
  assume P: "s \<in> set (sessions x) \<and> users x (userId s) = users st (userId s)
         \<and> (userId s \<in> set (userList x) \<longleftrightarrow> userId s \<in> set (userList st))"
  have "s \<notin> set (dead_sessions env k x)"
    using assms(3) by (simp add: dead_sessions_def)
  with P have "s \<in> set (sessions x) - set (dead_sessions env k x)" by simp
  then have "userId s \<in> userId ` (set (sessions x) - set (dead_sessions env k x))" by (rule imageI)
  with P \<open>s \<notin> set (dead_sessions env k x)\<close>
  show "s \<in> set (sessions (reconcile (dead_sessions env k x) x))
         \<and> users (reconcile (dead_sessions env k x) x) (userId s) = users st (userId s)
         \<and> (userId s \<in> set (userList (reconcile (dead_sessions env k x) x))
              \<longleftrightarrow> userId s \<in> set (userList st))"
    by (simp add: users_reconcile userList_reconcile sessions_reconcile)
qed

section \<open>Frames of the listeners\<close>

lemma users_get_entry: "users st uid = Some u \<Longrightarrow> users_get st uid = Some (Entry u)"
  by (simp add: users_get_def)

lemma users_get_entry_iff: "users_get st uid = Some (Entry u) \<longleftrightarrow> users st uid = Some u"
  by (auto simp: users_get_def split: option.splits if_splits)

lemma assign_frame:
  assumes "assign uid a st = (e, st1)"
  shows "sessions st1 = sessions st \<and> userList st1 = userList st \<and> dom (users st1) = dom (users st)
       \<and> revealed st1 = revealed st \<and> deckId st1 = deckId st
       \<and> activeCustomDeck st1 = activeCustomDeck st"
  using assms
  by (auto simp: assign_def users_get_entry_iff split: option.splits user_ref.splits json.splits if_splits)

lemma same_frame_refl: "same_frame st st"
  by (simp add: same_frame_def)

lemma same_frame_trans: "same_frame x y \<Longrightarrow> same_frame y z \<Longrightarrow> same_frame x z"
  by (simp add: same_frame_def)

lemma assign_same_frame: "assign uid a st = (e, st1) \<Longrightarrow> same_frame st st1"
  by (drule assign_frame) (simp add: same_frame_def)

lemma set_name_frame: "set_name uid data st = (e, st1) \<Longrightarrow> same_frame st st1"
  by (auto simp: set_name_def same_frame_refl split: option.splits if_splits dest: assign_same_frame)

lemma set_avatar_frame: "set_avatar uid data st = (e, st1) \<Longrightarrow> same_frame st st1"
  by (auto simp: set_avatar_def same_frame_refl split: if_splits dest: assign_same_frame)

lemma set_colorId_frame: "set_colorId uid data st = (e, st1) \<Longrightarrow> same_frame st st1"
  by (auto simp: set_colorId_def same_frame_refl split: if_splits dest: assign_same_frame)

lemma and_then_same_frame:
  assumes "and_then r f = (e, st2)" and "same_frame st (snd r)"
    and "\<And>x e' y. f x = (e', y) \<Longrightarrow> same_frame x y"
  shows "same_frame st st2"
proof (cases "fst r")
  case None
  with assms(1) have "f (snd r) = (e, st2)" by (simp add: and_then_def)
  from assms(3)[OF this] assms(2) show ?thesis by (rule same_frame_trans[rotated])
next
  case (Some x)
  with assms(1) have "snd r = st2" by (auto simp: and_then_def)
  with assms(2) show ?thesis by simp
qed

lemma set_profile_frame:
  assumes "set_profile uid data st = (e, st1)"
  shows "same_frame st st1"
proof -
  obtain e1 s1 where 1: "set_name uid data st = (e1, s1)" by (cases "set_name uid data st")
  obtain e2 s2 where 2: "and_then (set_name uid data st) (set_avatar uid data) = (e2, s2)"
    by (cases "and_then (set_name uid data st) (set_avatar uid data)")
  have f2: "same_frame st s2"
    by (rule and_then_same_frame[OF 2]) (simp_all add: 1 set_name_frame[OF 1] set_avatar_frame)
  from assms have "and_then (e2, s2) (set_colorId uid data) = (e, st1)"
    by (simp add: set_profile_def 2)
  then show ?thesis
    by (rule and_then_same_frame) (simp_all add: f2 set_colorId_frame)
qed

lemma applied_frame:
  assumes "applied uid user t data st = Some (e, st1)"
  shows "sessions st1 = sessions st \<and> userList st1 = userList st \<and> dom (users st1) = dom (users st)"
proof -
  have c: "dom (clear_votes (users st)) = dom (users st)"
    by (auto simp: clear_votes_def dom_def)
  from assms show ?thesis
    by (clarsimp simp: applied_def Let_def c same_frame_def split: if_splits option.splits
        dest!: assign_same_frame set_profile_frame)
qed

lemma dispatch_applied:
  "dispatch env sock uid user t data st =
     (case applied uid user t data st of
        None \<Rightarrow> Some (st, [])
      | Some r \<Rightarrow> then_broadcast env sock r)"
  by (simp add: dispatch_def applied_def then_broadcast_def Let_def split: option.splits)

lemma on_message_cases:
  assumes "on_message env sock uid p st = Some (st', out)"
  obtains (noop) "st' = st"
  | (thrown) user t data e where "users_get st uid = Some user"
      "applied uid user t data st = Some (Some e, st')"
  | (applied) user t data st1 where "users_get st uid = Some user"
      "applied uid user t data st = Some (None, st1)"
      "broadcastState env 0 None st1 = Some (st', out)"
proof -
  from assms consider "st' = st"
    | user t data where "users_get st uid = Some user"
        "dispatch env sock uid user t data st = Some (st', out)"
    by (auto simp: on_message_def split: payload.splits option.splits json.splits)
  then show thesis
  proof cases
    case 1
    then show ?thesis by (rule noop)
  next
    case (2 user t data)
    show ?thesis
    proof (cases "applied uid user t data st")
      case None
      with 2 have "st' = st" by (simp add: dispatch_applied)
      then show ?thesis by (rule noop)
    next
      case (Some r)
      obtain e st1 where r: "r = (e, st1)" by (cases r)
      show ?thesis
      proof (cases e)
        case None
        with 2 Some r show ?thesis
          by (intro applied[of user t data st1]) (simp_all add: dispatch_applied then_broadcast_def)
      next
        case (Some x)
        with 2 \<open>applied uid user t data st = Some r\<close> r show ?thesis
          by (intro thrown[of user t data x]) (auto simp: dispatch_applied then_broadcast_def)
      qed
    qed
  qed
qed

section \<open>Invariants of reachable rooms\<close>

lemma get_prop_unwritten: "k \<notin> set written_names \<Longrightarrow> get_prop P d k = own_prop d k"
  by (simp add: get_prop_def proto_get_def split: option.splits)

lemma list_ok_remove_dead: "list_ok st \<Longrightarrow> list_ok (remove_dead s st)"
  by (auto simp: list_ok_def remove_dead_def Let_def)

lemma list_ok_fold: "list_ok st \<Longrightarrow> list_ok (fold remove_dead d st)"
  by (induction d arbitrary: st) (simp_all add: list_ok_remove_dead)

lemma list_ok_sessions_upd: "list_ok (st\<lparr>sessions := x\<rparr>) = list_ok st"
  by (simp add: list_ok_def)

lemma list_ok_reconcile: "list_ok st \<Longrightarrow> list_ok (reconcile d st)"
  by (simp add: reconcile_def list_ok_fold list_ok_sessions_upd)

lemma list_ok_broadcast:
  "broadcastState env n m st = Some (st', out) \<Longrightarrow> list_ok st \<Longrightarrow> list_ok st'"
  by (erule broadcastState_invariant[where P = list_ok]) (simp_all add: list_ok_reconcile)

lemma deck_ok_cong:
  "deck_ok st \<Longrightarrow> deckId st1 = deckId st \<Longrightarrow> activeCustomDeck st1 = activeCustomDeck st \<Longrightarrow>
   deck_ok st1"
  by (auto simp: deck_ok_def)

lemma deck_ok_broadcast:
  "broadcastState env n m st = Some (st', out) \<Longrightarrow> deck_ok st \<Longrightarrow> deck_ok st'"
  by (drule rest_broadcast) (erule deck_ok_cong, simp_all)



lemma list_ok_register: "list_ok st \<Longrightarrow> list_ok (register sock uid spec st)"
proof -
  assume a: "list_ok st"
  let ?st1 = "st\<lparr> sessions := sessions st @ [\<lparr> socket = sock, userId = uid \<rparr>] \<rparr>"
  show ?thesis
  proof (cases "users_get ?st1 uid")
    case None
    then have "users st uid = None" by (auto simp: users_get_def split: option.splits)
    with a None show ?thesis
      by (auto simp: list_ok_def register_def Let_def)
  next
    case (Some r)
    with a show ?thesis by (simp add: list_ok_def register_def Let_def)
  qed
qed

lemma deck_ok_register: "deck_ok st \<Longrightarrow> deck_ok (register sock uid spec st)"
  by (auto simp: deck_ok_def register_def Let_def split: option.splits)


lemma list_ok_unregister: "list_ok st \<Longrightarrow> list_ok (unregister sock uid st)"
  by (auto simp: list_ok_def unregister_def Let_def)

lemma deck_ok_unregister: "deck_ok st \<Longrightarrow> deck_ok (unregister sock uid st)"
  by (auto simp: deck_ok_def unregister_def Let_def)


lemma list_ok_applied:
  "applied uid user t data st = Some (e, st1) \<Longrightarrow> list_ok st \<Longrightarrow> list_ok st1"
  by (drule applied_frame) (simp add: list_ok_def)


lemma applied_shapes:
  assumes "applied uid user t data st = Some (e, st1)"
  shows "same_frame st st1
       \<or> st1 = st\<lparr> revealed := True \<rparr>
       \<or> st1 = st\<lparr> revealed := False, users := clear_votes (users st) \<rparr>
       \<or> st1 = st\<lparr> deckId := get_prop (objectProto st) data ''deckId'', activeCustomDeck := None,
                     revealed := False, users := clear_votes (users st) \<rparr>
       \<or> (\<exists>d. get_prop (objectProto st) data ''deck'' = Some d \<and> valid_deck (objectProto st) d
            \<and> st1 = st\<lparr> activeCustomDeck := Some d, deckId := get_prop (objectProto st) d ''id'',
                     revealed := False, users := clear_votes (users st) \<rparr>)"
  using assms
  by (clarsimp simp: applied_def Let_def split: if_splits option.splits
      dest!: assign_same_frame set_profile_frame)

lemma deck_ok_applied:
  assumes "applied uid user t data st = Some (e, st1)" "deck_ok st"
  shows "deck_ok st1"
proof -
  have i: "get_prop P d ''id'' = own_prop d ''id''" for P d
    by (rule get_prop_unwritten) (simp add: written_names_def)
  from applied_shapes[OF assms(1)] consider
      (same) "same_frame st st1"
    | (flag) "st1 = st\<lparr> revealed := True \<rparr>"
    | (reset) "st1 = st\<lparr> revealed := False, users := clear_votes (users st) \<rparr>"
    | (deck) "st1 = st\<lparr> deckId := get_prop (objectProto st) data ''deckId'',
                     activeCustomDeck := None,
                     revealed := False, users := clear_votes (users st) \<rparr>"
    | (custom) d where "valid_deck (objectProto st) d"
        "st1 = st\<lparr> activeCustomDeck := Some d, deckId := get_prop (objectProto st) d ''id'',
                     revealed := False, users := clear_votes (users st) \<rparr>"
    by blast
  then show ?thesis
  proof cases
    case same
    then have "deckId st1 = deckId st" "activeCustomDeck st1 = activeCustomDeck st"
      by (simp_all add: same_frame_def)
    with assms(2) show ?thesis by (rule deck_ok_cong)
  next
    case flag
    then have "deckId st1 = deckId st" "activeCustomDeck st1 = activeCustomDeck st"
      by simp_all
    with assms(2) show ?thesis by (rule deck_ok_cong)
  next
    case reset
    then have "deckId st1 = deckId st" "activeCustomDeck st1 = activeCustomDeck st"
      by simp_all
    with assms(2) show ?thesis by (rule deck_ok_cong)
  next
    case deck
    then show ?thesis by (simp add: deck_ok_def)
  next
    case (custom d)
    then show ?thesis by (simp add: deck_ok_def valid_deck_def i)
  qed
qed

lemma reachable_list_ok: "reachable L st \<Longrightarrow> list_ok st"
proof (induction rule: reachable.induct)
  case r_init
  show ?case by (simp add: list_ok_def init_room_def)
next
  case (r_connect L st uid env spec st' out)
  then show ?case
    by (auto simp: handleSession_def intro: list_ok_broadcast list_ok_register)
next
  case (r_message L st sock env p st' out)
  from r_message.hyps(3) show ?case
  proof (cases rule: on_message_cases)
    case noop
    with r_message.IH show ?thesis by simp
  next
    case (thrown user t data e)
    with r_message.IH show ?thesis by (blast intro: list_ok_applied)
  next
    case (applied user t data st1)
    with r_message.IH show ?thesis by (blast intro: list_ok_broadcast list_ok_applied)
  qed
next
  case (r_close L st sock env st' out)
  then show ?case
    by (auto simp: on_close_def intro: list_ok_broadcast list_ok_unregister)
next
  case (r_isolate L st P)
  then show ?case by (simp add: list_ok_def)
qed

lemma reachable_deck_ok: "reachable L st \<Longrightarrow> deck_ok st"
proof (induction rule: reachable.induct)
  case r_init
  show ?case by (simp add: deck_ok_def init_room_def)
next
  case (r_connect L st uid env spec st' out)
  then show ?case
    by (auto simp: handleSession_def intro: deck_ok_broadcast deck_ok_register)
next
  case (r_message L st sock env p st' out)
  from r_message.hyps(3) show ?case
  proof (cases rule: on_message_cases)
    case noop
    with r_message.IH show ?thesis by simp
  next
    case (thrown user t data e)
    with r_message.IH show ?thesis by (blast intro: deck_ok_applied)
  next
    case (applied user t data st1)
    with r_message.IH show ?thesis by (blast intro: deck_ok_broadcast deck_ok_applied)
  qed
next
  case (r_close L st sock env st' out)
  then show ?case
    by (auto simp: on_close_def intro: deck_ok_broadcast deck_ok_unregister)
next
  case (r_isolate L st P)
  then show ?case by (simp add: deck_ok_def)
qed


section \<open>Malformed messages\<close>

text \<open>
  C7. A message whose text \<^verbatim>\<open>JSON.parse\<close> rejects: the listener makes exactly one send, the
  error envelope to the socket the message came from, and leaves the room as it was. No
  state message is sent to anyone.
\<close>

theorem malformed_json_reports_to_sender_only:
  "on_message env sock uid (Unparseable e) st = Some (st, [(sock, ErrorMsg (SyntaxError e))])"
  by (simp add: on_message_def)

section \<open>Termination of the broadcast loop\<close>




section \<open>Commands without authority\<close>

text \<open>
  C5. A \<^verbatim>\<open>vote\<close> from a spectator, and a \<^verbatim>\<open>reveal\<close>, \<^verbatim>\<open>reset\<close>, \<^verbatim>\<open>setDeck\<close> or
  \<^verbatim>\<open>setCustomDeck\<close> from anyone who is not the host, returns the room as it was, in every
  room, and sends nothing: no state message and no error envelope.
\<close>

theorem unauthorized_commands_change_nothing:
  "(users st uid = Some u \<and> isSpectator u \<and> map_of kv ''type'' = Some (JStr ''vote'')
      \<longrightarrow> on_message env sock uid (Parsed (JObj kv)) st = Some (st, []))
   \<and> (resolveHost st \<noteq> Some uid \<and> map_of kv ''type'' = Some (JStr t)
       \<and> t \<in> {''reveal'', ''reset'', ''setDeck'', ''setCustomDeck''}
      \<longrightarrow> on_message env sock uid (Parsed (JObj kv)) st = Some (st, []))"
  by (auto simp: on_message_def dispatch_def users_get_entry get_prop_def split: option.splits)

theorem unauthorized_commands_change_nothing_witness:
  "users room_ab ''bob'' = Some (new_user ''bob'' True) \<and> isSpectator (new_user ''bob'' True)
   \<and> resolveHost room_ab \<noteq> Some ''bob''
   \<and> on_message no_fail 1 ''bob'' (Parsed (JObj [(''type'', JStr ''vote''), (''card'', JStr ''5'')])) room_ab
       = Some (room_ab, [])
   \<and> on_message no_fail 1 ''bob'' (Parsed (JObj [(''type'', JStr ''reveal'')])) room_ab
       = Some (room_ab, [])"
  using unauthorized_commands_change_nothing[of room_ab "''bob''" "new_user ''bob'' True"
      "[(''type'', JStr ''vote''), (''card'', JStr ''5'')]" no_fail 1 "''reveal''"]
    unauthorized_commands_change_nothing[of room_ab "''bob''" "new_user ''bob'' True"
      "[(''type'', JStr ''reveal'')]" no_fail 1 "''reveal''"]
  by (simp add: room_ab_def new_user_def resolveHost_def users_get_def)

section \<open>A raw message\<close>





section \<open>Registering a further session\<close>

text \<open>
  C10. \<^verbatim>\<open>handleSession\<close> for an identity that already has a participant entry only adds
  the session: the result does not depend on the spectator flag of the request, and the
  entry afterwards is the one stored before, with its spectator flag and every other
  field. The entry can only disappear, when every socket of the identity fails in the
  broadcast; it stays whenever the sends to the new socket do not throw.
\<close>

theorem reconnect_keeps_spectator_flag:
  assumes "users st uid = Some u"
  shows "register sock uid spec st = st\<lparr> sessions := sessions st @ [\<lparr> socket = sock, userId = uid \<rparr>] \<rparr>
       \<and> handleSession env sock uid spec st = handleSession env sock uid (\<not> spec) st
       \<and> (\<exists>st' out. handleSession env sock uid spec st = Some (st', out)
            \<and> (users st' uid = Some u \<or> users st' uid = None)
            \<and> ((\<forall>k. \<not> env k sock) \<longrightarrow> users st' uid = Some u))"
proof -
  let ?st1 = "st\<lparr> sessions := sessions st @ [\<lparr> socket = sock, userId = uid \<rparr>] \<rparr>"
  have reg: "register sock uid b st = ?st1" for b
    using assms by (simp add: register_def Let_def users_get_def)
  obtain st' out where r: "broadcastState env 0 None ?st1 = Some (st', out)"
    using broadcastState_returns[of env 0 None ?st1] by auto
  have "users st' uid = None \<or> users st' uid = users ?st1 uid"
    using broadcast_only_removes[OF r, of uid] by simp
  moreover have "users st' uid = Some u" if "\<forall>k. \<not> env k sock"
    using broadcast_keeps_live[OF r, of "\<lparr> socket = sock, userId = uid \<rparr>"] that assms by simp
  ultimately show ?thesis
    using assms r by (auto simp: handleSession_def reg)
qed

theorem reconnect_keeps_spectator_flag_witness:
  "users room_a ''alice'' = Some (new_user ''alice'' False)
   \<and> handleSession no_fail 1 ''alice'' True room_a = handleSession no_fail 1 ''alice'' False room_a
   \<and> (\<exists>st' out. handleSession no_fail 1 ''alice'' True room_a = Some (st', out)
         \<and> users st' ''alice'' = Some (new_user ''alice'' False))"
proof -
  have u: "users room_a ''alice'' = Some (new_user ''alice'' False)"
    by (simp add: room_a_def)
  have e: "\<forall>k. \<not> no_fail k 1" by (simp add: no_fail_def)
  note t = reconnect_keeps_spectator_flag[OF u, of 1 True no_fail]
  from t have eq: "handleSession no_fail 1 ''alice'' True room_a
      = handleSession no_fail 1 ''alice'' False room_a"
    by simp
  from t e obtain st' out where "handleSession no_fail 1 ''alice'' True room_a = Some (st', out)"
    and "users st' ''alice'' = Some (new_user ''alice'' False)"
    by blast
  with u eq show ?thesis by blast
qed

section \<open>Deck changes\<close>

lemma resolveHost_user:
  assumes "resolveHost st = Some uid"
  shows "\<exists>user. users_get st uid = Some user"
  using assms
  by (auto simp: resolveHost_def find_Some_iff split: option.splits)

lemma host_message:
  assumes "resolveHost st = Some uid" "map_of kv ''type'' = Some (JStr t)"
  shows "\<exists>user. on_message env sock uid (Parsed (JObj kv)) st
           = dispatch env sock uid user t (JObj kv) st"
  using resolveHost_user[OF assms(1)] assms(2) by (auto simp: on_message_def get_prop_def)

lemma clear_votes_Some:
  "clear_votes us i = Some v \<longleftrightarrow> (\<exists>u. us i = Some u \<and> v = u\<lparr> vote := Some JNull \<rparr>)"
  by (auto simp: clear_votes_def)

lemma broadcast_new_round:
  assumes b: "broadcastState env 0 None st1 = Some (st', out)"
    and r: "revealed st1 = False" and v: "users st1 = clear_votes (users st)"
    and s: "sessions st1 = sessions st" and l: "userList st1 = userList st"
  shows "revealed st' = False
       \<and> (\<forall>i u. users st' i = Some u \<longrightarrow> vote u = Some JNull)
       \<and> (\<forall>i. users st' i = None
              \<or> users st' i = map_option (\<lambda>u. u\<lparr> vote := Some JNull \<rparr>) (users st i))
       \<and> (\<forall>s \<in> set (sessions st). (\<forall>k. \<not> env k (socket s)) \<longrightarrow>
              users st' (userId s) = map_option (\<lambda>u. u\<lparr> vote := Some JNull \<rparr>) (users st (userId s)))
       \<and> (dead_sessions env 0 st = [] \<longrightarrow>
              (\<forall>i. users st' i = map_option (\<lambda>u. u\<lparr> vote := Some JNull \<rparr>) (users st i))
              \<and> userList st' = userList st \<and> sessions st' = sessions st)"
proof -
  have c: "users st1 i = map_option (\<lambda>u. u\<lparr> vote := Some JNull \<rparr>) (users st i)" for i
    by (simp add: v clear_votes_def)
  have 1: "revealed st' = False"
    using rest_broadcast[OF b] r by simp
  have 3: "users st' i = None
              \<or> users st' i = map_option (\<lambda>u. u\<lparr> vote := Some JNull \<rparr>) (users st i)" for i
    using broadcast_only_removes[OF b, of i] c[of i] by auto
  have 2: "vote u = Some JNull" if "users st' i = Some u" for i u
  proof -
    from 3[of i] that have "map_option (\<lambda>u. u\<lparr> vote := Some JNull \<rparr>) (users st i) = Some u"
      by simp
    then obtain w where "u = w\<lparr> vote := Some JNull \<rparr>" by auto
    then show ?thesis by simp
  qed
  have 4: "users st' (userId x) = map_option (\<lambda>u. u\<lparr> vote := Some JNull \<rparr>) (users st (userId x))"
    if "x \<in> set (sessions st)" "\<forall>k. \<not> env k (socket x)" for x
    using broadcast_keeps_live[OF b, of x] that s c[of "userId x"] by simp
  have 5: "(\<forall>i. users st' i = map_option (\<lambda>u. u\<lparr> vote := Some JNull \<rparr>) (users st i))
              \<and> userList st' = userList st \<and> sessions st' = sessions st"
    if "dead_sessions env 0 st = []"
  proof -
    from that s have "dead_sessions env 0 st1 = []" by (simp add: dead_sessions_def)
    from broadcast_no_dead[OF this, of None] b have "st' = st1" by simp
    with c s l show ?thesis by simp
  qed
  from 1 2 3 4 5 show ?thesis by blast
qed

text \<open>
  C2. A \<^verbatim>\<open>setDeck\<close>, or a \<^verbatim>\<open>setCustomDeck\<close> whose deck passes the listener's check, sent
  by the host: the listener returns, and in the room it leaves \<open>revealed\<close> is false and
  every participant's vote is \<^verbatim>\<open>null\<close>, whatever they were before. The participants of
  that room are those of the room before, each with its entry changed in the vote only,
  less those that the broadcast evicted: a participant with a session whose socket takes
  every send is still there, and if no send of the first pass fails, all are, in the same
  join order. This holds in every room in which the sender is the host, reachable or not.
\<close>

theorem deck_change_starts_new_round:
  assumes "resolveHost st = Some uid" and "map_of kv ''type'' = Some (JStr t)"
    and "t = ''setDeck'' \<or> (t = ''setCustomDeck''
           \<and> (\<exists>d. map_of kv ''deck'' = Some d \<and> valid_deck (objectProto st) d))"
  shows "\<exists>st' out. on_message env sock uid (Parsed (JObj kv)) st = Some (st', out)
           \<and> revealed st' = False
           \<and> (\<forall>i u. users st' i = Some u \<longrightarrow> vote u = Some JNull)
           \<and> (\<forall>i. users st' i = None
                  \<or> users st' i = map_option (\<lambda>u. u\<lparr> vote := Some JNull \<rparr>) (users st i))
           \<and> (\<forall>s \<in> set (sessions st). (\<forall>k. \<not> env k (socket s)) \<longrightarrow>
                  users st' (userId s)
                    = map_option (\<lambda>u. u\<lparr> vote := Some JNull \<rparr>) (users st (userId s)))
           \<and> (dead_sessions env 0 st = [] \<longrightarrow>
                  (\<forall>i. users st' i = map_option (\<lambda>u. u\<lparr> vote := Some JNull \<rparr>) (users st i))
                  \<and> userList st' = userList st \<and> sessions st' = sessions st)"
proof -
  from host_message[OF assms(1,2)] obtain user where
    m: "on_message env sock uid (Parsed (JObj kv)) st = dispatch env sock uid user t (JObj kv) st"
    by blast
  from assms(1,3) obtain st1 where a: "applied uid user t (JObj kv) st = Some (None, st1)"
    and r: "revealed st1 = False" and v: "users st1 = clear_votes (users st)"
    and s: "sessions st1 = sessions st" and l: "userList st1 = userList st"
    by (auto simp: applied_def get_prop_def)
  obtain st' out where b: "broadcastState env 0 None st1 = Some (st', out)"
    using broadcastState_returns[of env 0 None st1] by auto
  have "on_message env sock uid (Parsed (JObj kv)) st = Some (st', out)"
    using m a b by (simp add: dispatch_applied then_broadcast_def)
  with broadcast_new_round[OF b r v s l] show ?thesis by blast
qed

theorem deck_change_starts_new_round_witness:
  "resolveHost room_revealed = Some ''alice''
   \<and> revealed room_revealed
   \<and> users room_revealed ''alice'' = Some ((new_user ''alice'' False)\<lparr> vote := Some (JStr ''5'') \<rparr>)
   \<and> (\<exists>st' out. on_message no_fail 0 ''alice''
          (Parsed (JObj [(''type'', JStr ''setDeck''), (''deckId'', JStr ''tshirt'')])) room_revealed
          = Some (st', out)
         \<and> revealed st' = False
         \<and> users st' ''alice'' = Some (new_user ''alice'' False)
         \<and> users st' ''bob'' = Some (new_user ''bob'' True)
         \<and> userList st' = [''alice'', ''bob''])"
proof -
  have h: "resolveHost room_revealed = Some ''alice''"
    by (simp add: resolveHost_def room_revealed_def new_user_def users_get_def)
  have t: "map_of [(''type'', JStr ''setDeck''), (''deckId'', JStr ''tshirt'')] ''type''
      = Some (JStr ''setDeck'')"
    by simp
  have p: "revealed room_revealed
     \<and> users room_revealed ''alice'' = Some ((new_user ''alice'' False)\<lparr> vote := Some (JStr ''5'') \<rparr>)"
    by (simp add: room_revealed_def)
  have d: "dead_sessions no_fail 0 room_revealed = []"
    by (simp add: dead_sessions_def no_fail_def)
  from deck_change_starts_new_round[OF h t, of no_fail 0] d obtain st' out where
    m: "on_message no_fail 0 ''alice''
          (Parsed (JObj [(''type'', JStr ''setDeck''), (''deckId'', JStr ''tshirt'')])) room_revealed
          = Some (st', out)"
    and r: "revealed st' = False"
    and u: "\<forall>i. users st' i = map_option (\<lambda>u. u\<lparr> vote := Some JNull \<rparr>) (users room_revealed i)"
    and l: "userList st' = userList room_revealed"
    by auto
  from u have "users st' ''alice'' = Some (new_user ''alice'' False)"
    and "users st' ''bob'' = Some (new_user ''bob'' True)"
    by (simp_all add: room_revealed_def new_user_def)
  moreover from l have "userList st' = [''alice'', ''bob'']" by (simp add: room_revealed_def)
  ultimately show ?thesis using h p m r by blast
qed

section \<open>Rooms that are reached\<close>

lemma reachable_room_a: "reachable [''alice''] room_a"
proof -
  have "handleSession no_fail (length ([]::string list)) ''alice'' False init_room
      = Some (room_a, [(0, state_message room_a)])"
    by (simp add: handleSession_def broadcast_no_fail register_def init_room_def room_a_def
        build_message_def users_get_def builtin_members_def proto_get_def)
  from r_connect[OF r_init _ this] show ?thesis by simp
qed

lemma reachable_room_ab: "reachable [''alice'', ''bob''] room_ab"
proof -
  have "handleSession no_fail (length [''alice'']) ''bob'' True room_a
      = Some (room_ab, [(0, state_message room_ab), (1, state_message room_ab)])"
    by (simp add: handleSession_def broadcast_no_fail register_def room_a_def room_ab_def
        build_message_def users_get_def builtin_members_def proto_get_def)
  from r_connect[OF reachable_room_a _ this] show ?thesis by simp
qed


lemma reachable_room_b: "reachable [''bob''] room_b"
proof -
  have "handleSession no_fail (length ([]::string list)) ''bob'' True init_room
      = Some (room_b, [(0, state_message room_b)])"
    by (simp add: handleSession_def broadcast_no_fail register_def init_room_def room_b_def
        build_message_def users_get_def builtin_members_def proto_get_def)
  from r_connect[OF r_init _ this] show ?thesis by simp
qed

lemma reachable_room_custom: "reachable [''alice''] room_custom"
proof -
  have h: "resolveHost room_a = Some ''alice''"
    by (simp add: resolveHost_def room_a_def new_user_def users_get_def)
  have v: "valid_deck Map.empty custom_deck"
    by (simp add: valid_deck_def custom_deck_def get_prop_def)
  have i: "get_prop Map.empty custom_deck ''id'' = Some (JStr ''tshirt'')"
    by (simp add: custom_deck_def get_prop_def)
  have u: "users_get room_a ''alice'' = Some (Entry (new_user ''alice'' False))"
    by (simp add: room_a_def users_get_def)
  have p: "objectProto room_a = Map.empty" by (simp add: room_a_def)
  let ?data = "JObj [(''type'', JStr ''setCustomDeck''), (''deck'', custom_deck)]"
  have t: "get_prop Map.empty ?data ''type'' = Some (JStr ''setCustomDeck'')"
    and k: "get_prop Map.empty ?data ''deck'' = Some custom_deck"
    by (simp_all add: get_prop_def)
  have "on_message no_fail 0 ([''alice''] ! 0) (Parsed ?data) room_a
      = Some (room_custom, map (\<lambda>s. (socket s, state_message room_custom)) (sessions room_custom))"
    by (simp add: on_message_def dispatch_def h u p v i t k broadcast_no_fail build_message_def
        room_custom_def)
  from r_message[OF reachable_room_a _ this] show ?thesis by simp
qed

section \<open>Deck id and custom deck\<close>

text \<open>
  C6. In every reachable room a custom deck, when one is held, carries the active deck id
  as its own \<^verbatim>\<open>id\<close>, and that id is truthy. A \<^verbatim>\<open>setDeck\<close> that is applied (sent by the
  host) stores the message's \<^verbatim>\<open>deckId\<close> and sets the custom deck to \<^verbatim>\<open>null\<close>; a
  \<^verbatim>\<open>setCustomDeck\<close> that is accepted (sent by the host, with a deck that passes the check)
  stores the deck and its id.
\<close>

theorem deck_id_matches_custom_deck:
  assumes "reachable L st"
  shows "(\<forall>d. activeCustomDeck st = Some d \<longrightarrow> deckId st = own_prop d ''id'' \<and> truthy (deckId st))
       \<and> (resolveHost st = Some uid \<and> map_of kv ''type'' = Some (JStr ''setDeck'') \<longrightarrow>
            (\<exists>st' out. on_message env sock uid (Parsed (JObj kv)) st = Some (st', out)
               \<and> deckId st' = map_of kv ''deckId'' \<and> activeCustomDeck st' = None))
       \<and> (resolveHost st = Some uid \<and> map_of kv ''type'' = Some (JStr ''setCustomDeck'')
            \<and> map_of kv ''deck'' = Some d \<and> valid_deck (objectProto st) d \<longrightarrow>
            (\<exists>st' out. on_message env sock uid (Parsed (JObj kv)) st = Some (st', out)
               \<and> activeCustomDeck st' = Some d \<and> deckId st' = own_prop d ''id''))"
proof (intro conjI impI allI)
  fix c assume "activeCustomDeck st = Some c"
  with reachable_deck_ok[OF assms] show "deckId st = own_prop c ''id''"
    by (simp add: deck_ok_def)
next
  fix c assume "activeCustomDeck st = Some c"
  with reachable_deck_ok[OF assms] show "truthy (deckId st)"
    by (simp add: deck_ok_def)
next
  assume a: "resolveHost st = Some uid \<and> map_of kv ''type'' = Some (JStr ''setDeck'')"
  then obtain user where
    m: "on_message env sock uid (Parsed (JObj kv)) st
          = dispatch env sock uid user ''setDeck'' (JObj kv) st"
    using host_message[of st uid kv "''setDeck''" env sock] by blast
  have i: "get_prop (objectProto st) (JObj kv) ''deckId'' = map_of kv ''deckId''"
    using get_prop_unwritten[of "''deckId''" "objectProto st" "JObj kv"]
    by (simp add: written_names_def)
  let ?st1 = "st\<lparr> deckId := get_prop (objectProto st) (JObj kv) ''deckId'', activeCustomDeck := None,
                   revealed := False, users := clear_votes (users st) \<rparr>"
  obtain st' out where b: "broadcastState env 0 None ?st1 = Some (st', out)"
    using broadcastState_returns[of env 0 None ?st1] by auto
  from rest_broadcast[OF b] a m b i
  show "\<exists>st' out. on_message env sock uid (Parsed (JObj kv)) st = Some (st', out)
               \<and> deckId st' = map_of kv ''deckId'' \<and> activeCustomDeck st' = None"
    by (simp add: dispatch_def)
next
  assume a: "resolveHost st = Some uid \<and> map_of kv ''type'' = Some (JStr ''setCustomDeck'')
            \<and> map_of kv ''deck'' = Some d \<and> valid_deck (objectProto st) d"
  then obtain user where
    m: "on_message env sock uid (Parsed (JObj kv)) st
          = dispatch env sock uid user ''setCustomDeck'' (JObj kv) st"
    using host_message[of st uid kv "''setCustomDeck''" env sock] by blast
  have i: "get_prop (objectProto st) d ''id'' = own_prop d ''id''"
    using get_prop_unwritten[of "''id''" "objectProto st" d]
    by (simp add: written_names_def)
  from a have g: "get_prop (objectProto st) (JObj kv) ''deck'' = Some d"
    by (simp add: get_prop_def)
  let ?st1 = "st\<lparr> activeCustomDeck := Some d, deckId := get_prop (objectProto st) d ''id'',
                   revealed := False, users := clear_votes (users st) \<rparr>"
  obtain st' out where b: "broadcastState env 0 None ?st1 = Some (st', out)"
    using broadcastState_returns[of env 0 None ?st1] by auto
  from rest_broadcast[OF b] a m b i g
  show "\<exists>st' out. on_message env sock uid (Parsed (JObj kv)) st = Some (st', out)
               \<and> activeCustomDeck st' = Some d \<and> deckId st' = own_prop d ''id''"
    by (simp add: dispatch_def)
qed

theorem deck_id_matches_custom_deck_witness:
  "reachable [''alice''] room_custom
   \<and> activeCustomDeck room_custom = Some custom_deck
   \<and> deckId room_custom = own_prop custom_deck ''id''
   \<and> deckId room_custom = Some (JStr ''tshirt'')
   \<and> resolveHost room_custom = Some ''alice''
   \<and> (\<exists>st' out. on_message no_fail 0 ''alice''
         (Parsed (JObj [(''type'', JStr ''setDeck''), (''deckId'', JStr ''fibonacci'')])) room_custom
           = Some (st', out)
        \<and> deckId st' = Some (JStr ''fibonacci'') \<and> activeCustomDeck st' = None)"
proof -
  have a: "activeCustomDeck room_custom = Some custom_deck"
    by (simp add: room_custom_def)
  have i: "deckId room_custom = Some (JStr ''tshirt'')"
    by (simp add: room_custom_def)
  have h: "resolveHost room_custom = Some ''alice''"
    by (simp add: resolveHost_def room_custom_def room_a_def new_user_def clear_votes_def
        users_get_def)
  note t = deck_id_matches_custom_deck[OF reachable_room_custom, of "''alice''"
      "[(''type'', JStr ''setDeck''), (''deckId'', JStr ''fibonacci'')]" no_fail 0 custom_deck]
  from t a have "deckId room_custom = own_prop custom_deck ''id''" by blast
  moreover from t h have "\<exists>st' out. on_message no_fail 0 ''alice''
         (Parsed (JObj [(''type'', JStr ''setDeck''), (''deckId'', JStr ''fibonacci'')])) room_custom
           = Some (st', out)
        \<and> deckId st' = Some (JStr ''fibonacci'') \<and> activeCustomDeck st' = None"
    by simp
  ultimately show ?thesis using reachable_room_custom a i h by blast
qed

section \<open>setProfile\<close>

lemma assign_to_entry:
  "users st uid = Some u \<Longrightarrow>
   assign uid a st = (None, st\<lparr> users := (users st)(uid \<mapsto> assign_entry a u) \<rparr>)"
  by (simp add: assign_def users_get_def)

lemma set_profile_entry:
  assumes "users st uid = Some u"
  shows "set_profile uid data st
           = (None, st\<lparr> users := (users st)(uid \<mapsto> profile_entry (objectProto st) data u) \<rparr>)"
proof -
  let ?P = "objectProto st"
  define u1 where "u1 = u\<lparr> name := (case get_prop ?P data ''name'' of
                   None \<Rightarrow> name u
                 | Some v \<Rightarrow> if truthy_json v then v else name u) \<rparr>"
  define u2 where "u2 = u1\<lparr> avatar := (if has_prop ?P data ''avatar''
                   then (case get_prop ?P data ''avatar'' of
                           None \<Rightarrow> None
                         | Some v \<Rightarrow> if truthy_json v then Some v else None)
                   else avatar u1) \<rparr>"
  define u3 where "u3 = u2\<lparr> colorId := (if has_prop ?P data ''colorId''
                    then (case get_prop ?P data ''colorId'' of
                            None \<Rightarrow> JStr ''default''
                          | Some v \<Rightarrow> if truthy_json v then v else JStr ''default'')
                    else colorId u2) \<rparr>"
  have upd: "st\<lparr> users := (users st)(uid \<mapsto> u) \<rparr> = st"
    using assms by (simp add: map_upd_triv)
  have 1: "set_name uid data st = (None, st\<lparr> users := (users st)(uid \<mapsto> u1) \<rparr>)"
    using assms upd by (auto simp: set_name_def u1_def assign_to_entry split: option.splits)
  have 2: "set_avatar uid data (st\<lparr> users := (users st)(uid \<mapsto> u1) \<rparr>)
      = (None, st\<lparr> users := (users st)(uid \<mapsto> u2) \<rparr>)"
    by (simp add: set_avatar_def u2_def assign_to_entry)
  have 3: "set_colorId uid data (st\<lparr> users := (users st)(uid \<mapsto> u2) \<rparr>)
      = (None, st\<lparr> users := (users st)(uid \<mapsto> u3) \<rparr>)"
    by (simp add: set_colorId_def u3_def assign_to_entry)
  have "u3 = profile_entry ?P data u"
    by (simp add: u3_def u2_def u1_def profile_entry_def)
  with 1 2 3 show ?thesis by (simp add: set_profile_def and_then_def)
qed

lemma set_profile_message:
  assumes "users st uid = Some u" and "map_of kv ''type'' = Some (JStr ''setProfile'')"
  shows "on_message env sock uid (Parsed (JObj kv)) st
     = broadcastState env 0 None
         (st\<lparr> users := (users st)(uid \<mapsto> profile_entry (objectProto st) (JObj kv) u) \<rparr>)"
  using assms
  by (simp add: on_message_def dispatch_def users_get_entry get_prop_def set_profile_entry
      then_broadcast_def)

text \<open>
  C8, as stated, fails for the name: Alice, whose stored name is \<^verbatim>\<open>Al\<close>, sends
  \<^verbatim>\<open>setProfile\<close> with \<^verbatim>\<open>name: null\<close>, and then with the empty name. Both leave the room as it
  was, with the name \<^verbatim>\<open>Al\<close> and not the default name of her id.
\<close>

theorem set_profile_null_name_counterexample:
  "on_message no_fail 0 ''alice'' (Parsed (JObj [(''type'', JStr ''setProfile''), (''name'', JNull)]))
      room_named = Some (room_named, [(0, state_message room_named)])
   \<and> on_message no_fail 0 ''alice'' (Parsed (JObj [(''type'', JStr ''setProfile''), (''name'', JStr [])]))
      room_named = Some (room_named, [(0, state_message room_named)])
   \<and> map_option name (users room_named ''alice'') = Some (JStr ''Al'')
   \<and> name (new_user ''alice'' False) = JStr ''User alic''"
proof -
  let ?u = "(new_user ''alice'' False)\<lparr> name := JStr ''Al'' \<rparr>"
  have u: "users room_named ''alice'' = Some ?u"
    by (simp add: room_named_def)
  have p: "profile_entry (objectProto room_named) (JObj [(''type'', JStr ''setProfile''), (''name'', v)]) ?u
      = ?u" if "\<not> truthy_json v" for v
    using that
    by (simp add: profile_entry_def get_prop_def has_prop_def proto_has_def proto_get_def
        room_named_def)
  have k: "room_named\<lparr> users := (users room_named)(''alice'' \<mapsto> ?u) \<rparr> = room_named"
    by (simp add: room_named_def)
  have s: "map (\<lambda>s. (socket s, m)) (sessions room_named) = [(0, m)]" for m :: outmsg
    by (simp add: room_named_def)
  have "on_message no_fail 0 ''alice'' (Parsed (JObj [(''type'', JStr ''setProfile''), (''name'', v)]))
      room_named = Some (room_named, [(0, state_message room_named)])" if "\<not> truthy_json v" for v
    by (simp add: set_profile_message[OF u] p[OF that] k broadcast_no_fail build_message_def s)
  from this[of JNull] this[of "JStr []"] u show ?thesis
    by (simp add: new_user_def)
qed

text \<open>
  C8, amended. A \<^verbatim>\<open>setProfile\<close> from a participant stores \<open>profile_entry\<close> of the message
  and the stored entry, and broadcasts; the entry stays unless the broadcast evicts the
  participant. A field that the message supplies with a truthy value is stored. A field
  supplied as \<^verbatim>\<open>null\<close>, empty or otherwise falsy resets \<open>avatar\<close> to none and \<open>colorId\<close> to
  \<^verbatim>\<open>default\<close>, and leaves \<open>name\<close> as it was. A field absent from the message is kept,
  provided \<^verbatim>\<open>Object.prototype\<close> has no property of that name. Id, vote and spectator flag
  are kept.
\<close>

theorem set_profile_fields:
  assumes "users st uid = Some u" and "map_of kv ''type'' = Some (JStr ''setProfile'')"
  shows "(\<exists>st' out. on_message env sock uid (Parsed (JObj kv)) st = Some (st', out)
            \<and> (users st' uid = Some (profile_entry (objectProto st) (JObj kv) u)
                 \<or> users st' uid = None)
            \<and> (dead_sessions env 0 st = [] \<longrightarrow>
                  st' = st\<lparr> users := (users st)
                          (uid \<mapsto> profile_entry (objectProto st) (JObj kv) u) \<rparr>))
       \<and> (\<forall>v. map_of kv ''name'' = Some v \<longrightarrow>
              name (profile_entry (objectProto st) (JObj kv) u)
                = (if truthy_json v then v else name u))
       \<and> (\<forall>v. map_of kv ''avatar'' = Some v \<longrightarrow>
              avatar (profile_entry (objectProto st) (JObj kv) u)
                = (if truthy_json v then Some v else None))
       \<and> (\<forall>v. map_of kv ''colorId'' = Some v \<longrightarrow>
              colorId (profile_entry (objectProto st) (JObj kv) u)
                = (if truthy_json v then v else JStr ''default''))
       \<and> (map_of kv ''name'' = None \<and> \<not> proto_has (objectProto st) ''name'' \<longrightarrow>
              name (profile_entry (objectProto st) (JObj kv) u) = name u)
       \<and> (map_of kv ''avatar'' = None \<and> \<not> proto_has (objectProto st) ''avatar'' \<longrightarrow>
              avatar (profile_entry (objectProto st) (JObj kv) u) = avatar u)
       \<and> (map_of kv ''colorId'' = None \<and> \<not> proto_has (objectProto st) ''colorId'' \<longrightarrow>
              colorId (profile_entry (objectProto st) (JObj kv) u) = colorId u)
       \<and> idU (profile_entry (objectProto st) (JObj kv) u) = idU u
       \<and> vote (profile_entry (objectProto st) (JObj kv) u) = vote u
       \<and> isSpectator (profile_entry (objectProto st) (JObj kv) u) = isSpectator u"
proof -
  let ?u' = "profile_entry (objectProto st) (JObj kv) u"
  let ?st1 = "st\<lparr> users := (users st)(uid \<mapsto> ?u') \<rparr>"
  note m = set_profile_message[OF assms, of env sock]
  obtain st' out where b: "broadcastState env 0 None ?st1 = Some (st', out)"
    using broadcastState_returns[of env 0 None ?st1] by auto
  have d: "dead_sessions env 0 ?st1 = dead_sessions env 0 st"
    by (simp add: dead_sessions_def)
  have "users st' uid = None \<or> users st' uid = users ?st1 uid"
    using broadcast_only_removes[OF b, of uid] by simp
  moreover have "st' = ?st1" if "dead_sessions env 0 st = []"
    using b that broadcast_no_dead[of env 0 ?st1 None] by (simp add: d)
  ultimately have 1: "\<exists>st' out. on_message env sock uid (Parsed (JObj kv)) st = Some (st', out)
            \<and> (users st' uid = Some ?u' \<or> users st' uid = None)
            \<and> (dead_sessions env 0 st = [] \<longrightarrow> st' = ?st1)"
    using m b by auto
  have absent: "proto_get (objectProto st) k = None" if "\<not> proto_has (objectProto st) k" for k
    using that by (auto simp: proto_has_def proto_get_def)
  have 2: "name ?u' = (if truthy_json v then v else name u)" if "map_of kv ''name'' = Some v" for v
    using that by (simp add: profile_entry_def get_prop_def)
  have 3: "avatar ?u' = (if truthy_json v then Some v else None)"
    if "map_of kv ''avatar'' = Some v" for v
    using that by (simp add: profile_entry_def get_prop_def has_prop_def)
  have 4: "colorId ?u' = (if truthy_json v then v else JStr ''default'')"
    if "map_of kv ''colorId'' = Some v" for v
    using that by (simp add: profile_entry_def get_prop_def has_prop_def)
  have 5: "name ?u' = name u"
    if "map_of kv ''name'' = None \<and> \<not> proto_has (objectProto st) ''name''"
    using that absent[of "''name''"] by (simp add: profile_entry_def get_prop_def)
  have 6: "avatar ?u' = avatar u"
    if "map_of kv ''avatar'' = None \<and> \<not> proto_has (objectProto st) ''avatar''"
    using that by (simp add: profile_entry_def has_prop_def)
  have 7: "colorId ?u' = colorId u"
    if "map_of kv ''colorId'' = None \<and> \<not> proto_has (objectProto st) ''colorId''"
    using that by (simp add: profile_entry_def has_prop_def)
  have 8: "idU ?u' = idU u \<and> vote ?u' = vote u \<and> isSpectator ?u' = isSpectator u"
    by (simp add: profile_entry_def)
  from 1 2 3 4 5 6 7 8 show ?thesis by blast
qed

theorem set_profile_fields_witness:
  "users room_named ''alice'' = Some ((new_user ''alice'' False)\<lparr> name := JStr ''Al'' \<rparr>)
   \<and> \<not> proto_has (objectProto room_named) ''name''
   \<and> (\<exists>st' out. on_message no_fail 0 ''alice''
         (Parsed (JObj [(''type'', JStr ''setProfile''), (''avatar'', JNull),
                        (''colorId'', JStr ''red'')])) room_named = Some (st', out)
        \<and> map_option name (users st' ''alice'') = Some (JStr ''Al'')
        \<and> map_option avatar (users st' ''alice'') = Some None
        \<and> map_option colorId (users st' ''alice'') = Some (JStr ''red''))"
proof -
  let ?kv = "[(''type'', JStr ''setProfile''), (''avatar'', JNull), (''colorId'', JStr ''red'')]"
  let ?u = "(new_user ''alice'' False)\<lparr> name := JStr ''Al'' \<rparr>"
  let ?u' = "profile_entry (objectProto room_named) (JObj ?kv) ?u"
  have u: "users room_named ''alice'' = Some ?u"
    by (simp add: room_named_def)
  have t: "map_of ?kv ''type'' = Some (JStr ''setProfile'')" by simp
  have d: "dead_sessions no_fail 0 room_named = []"
    by (simp add: dead_sessions_def no_fail_def)
  have n: "\<not> proto_has (objectProto room_named) ''name''"
    by (simp add: proto_has_def room_named_def)
  note f = set_profile_fields[OF u t, of no_fail 0]
  from f d obtain st' out where
    m: "on_message no_fail 0 ''alice'' (Parsed (JObj ?kv)) room_named = Some (st', out)"
    and s: "st' = room_named\<lparr> users := (users room_named)(''alice'' \<mapsto> ?u') \<rparr>"
    by blast
  from f n have "name ?u' = name ?u" by simp
  moreover from f have "avatar ?u' = None" by simp
  moreover from f have "colorId ?u' = JStr ''red''" by simp
  ultimately have "map_option name (users st' ''alice'') = Some (JStr ''Al'')
        \<and> map_option avatar (users st' ''alice'') = Some None
        \<and> map_option colorId (users st' ''alice'') = Some (JStr ''red'')"
    using s by simp
  with u n m show ?thesis by blast
qed

section \<open>Clients whose user id names a member of Object.prototype\<close>

text \<open>A client that connects as \<^verbatim>\<open>constructor\<close> gets a session, and no entry and no place
  in the join order: \<^verbatim>\<open>this.users['constructor']\<close> is a function, hence truthy.\<close>

lemma register_builtin_member:
  "register 0 ''constructor'' False init_room
     = init_room\<lparr> sessions := [\<lparr> socket = 0, userId = ''constructor'' \<rparr>] \<rparr>"
  by (simp add: register_def users_get_def builtin_members_def init_room_def)

text \<open>Its \<^verbatim>\<open>setProfile\<close> with a name throws on the read-only \<^verbatim>\<open>name\<close> of the function; the
  listener reports the error to that client and does not broadcast.\<close>

lemma builtin_member_set_name:
  "on_message env 0 ''constructor''
     (Parsed (JObj [(''type'', JStr ''setProfile''), (''name'', JStr ''Eve'')]))
     (init_room\<lparr> sessions := [\<lparr> socket = 0, userId = ''constructor'' \<rparr>] \<rparr>)
   = Some (init_room\<lparr> sessions := [\<lparr> socket = 0, userId = ''constructor'' \<rparr>] \<rparr>,
       [(0, ErrorMsg TypeError_readonly)])"
  by (simp add: on_message_def dispatch_def users_get_def builtin_members_def init_room_def
      get_prop_def set_profile_def set_name_def assign_def and_then_def then_broadcast_def)

lemma reachable_room_named: "reachable [''alice''] room_named"
proof -
  have u: "users room_a ''alice'' = Some (new_user ''alice'' False)"
    by (simp add: room_a_def)
  have p: "profile_entry (objectProto room_a)
      (JObj [(''type'', JStr ''setProfile''), (''name'', JStr ''Al'')]) (new_user ''alice'' False)
      = (new_user ''alice'' False)\<lparr> name := JStr ''Al'' \<rparr>"
    by (simp add: profile_entry_def get_prop_def has_prop_def proto_has_def room_a_def)
  have k: "room_a\<lparr> users := (users room_a)
      (''alice'' \<mapsto> (new_user ''alice'' False)\<lparr> name := JStr ''Al'' \<rparr>) \<rparr> = room_named"
    by (simp add: room_a_def room_named_def)
  have "on_message no_fail 0 ([''alice''] ! 0)
      (Parsed (JObj [(''type'', JStr ''setProfile''), (''name'', JStr ''Al'')])) room_a
      = Some (room_named, map (\<lambda>s. (socket s, state_message room_named)) (sessions room_named))"
    by (simp add: set_profile_message[OF u] p k broadcast_no_fail build_message_def)
  from r_message[OF reachable_room_a _ this] show ?thesis by simp
qed

text \<open>A client that connects as \<^verbatim>\<open>__proto__\<close> gets a session and no entry.\<close>

lemma reachable_room_guest: "reachable [''alice'', ''__proto__''] room_guest"
proof -
  have "handleSession no_fail (length [''alice'']) ''__proto__'' False room_named
      = Some (room_guest, map (\<lambda>s. (socket s, state_message room_guest)) (sessions room_guest))"
    by (simp add: handleSession_def broadcast_no_fail register_def room_named_def room_guest_def
        build_message_def users_get_def)
  from r_connect[OF reachable_room_named _ this] show ?thesis by simp
qed

text \<open>Its \<^verbatim>\<open>setProfile\<close> writes to \<^verbatim>\<open>Object.prototype\<close>: the name, and an avatar property
  whose value is \<^verbatim>\<open>undefined\<close>.\<close>

lemma guest_writes_prototype:
  "on_message no_fail 1 ''__proto__''
     (Parsed (JObj [(''type'', JStr ''setProfile''), (''name'', JStr ''Eve''), (''avatar'', JNull)]))
     room_guest
   = Some (room_polluted, map (\<lambda>s. (socket s, state_message room_polluted)) (sessions room_polluted))"
proof -
  let ?data = "JObj [(''type'', JStr ''setProfile''), (''name'', JStr ''Eve''), (''avatar'', JNull)]"
  have g: "users_get room_guest ''__proto__'' = Some ObjectPrototype"
    by (simp add: users_get_def room_guest_def)
  have 1: "set_name ''__proto__'' ?data room_guest
      = (None, room_guest\<lparr> objectProto := [''name'' \<mapsto> Some (JStr ''Eve'')] \<rparr>)"
    by (simp add: set_name_def get_prop_def assign_def g) (simp add: room_guest_def)
  have 2: "set_avatar ''__proto__'' ?data
        (room_guest\<lparr> objectProto := [''name'' \<mapsto> Some (JStr ''Eve'')] \<rparr>)
      = (None, room_polluted)"
    by (simp add: set_avatar_def get_prop_def has_prop_def assign_def users_get_def
        room_polluted_def) (simp add: room_guest_def)
  have 3: "set_colorId ''__proto__'' ?data room_polluted = (None, room_polluted)"
    by (simp add: set_colorId_def has_prop_def proto_has_def room_polluted_def)
  have "set_profile ''__proto__'' ?data room_guest = (None, room_polluted)"
    by (simp add: set_profile_def and_then_def 1 2 3)
  then show ?thesis
    by (simp add: on_message_def dispatch_def g get_prop_def then_broadcast_def
        broadcast_no_fail build_message_def)
qed

lemma reachable_room_polluted: "reachable [''alice'', ''__proto__''] room_polluted"
proof -
  have "on_message no_fail 1 ([''alice'', ''__proto__''] ! 1)
     (Parsed (JObj [(''type'', JStr ''setProfile''), (''name'', JStr ''Eve''), (''avatar'', JNull)]))
     room_guest
   = Some (room_polluted, map (\<lambda>s. (socket s, state_message room_polluted)) (sessions room_polluted))"
    using guest_writes_prototype by simp
  from r_message[OF reachable_room_guest _ this] show ?thesis by simp
qed

text \<open>After that, a \<^verbatim>\<open>setProfile\<close> of Alice that supplies no field reads both through the
  prototype: her name becomes \<^verbatim>\<open>Eve\<close> and her avatar is reset.\<close>

lemma absent_fields_read_prototype:
  "profile_entry (objectProto room_polluted) (JObj [(''type'', JStr ''setProfile'')])
     ((new_user ''alice'' False)\<lparr> name := JStr ''Al'', avatar := Some (JStr ''cat'') \<rparr>)
   = (new_user ''alice'' False)\<lparr> name := JStr ''Eve'', avatar := None \<rparr>"
  by (simp add: profile_entry_def get_prop_def has_prop_def proto_has_def proto_get_def
      written_names_def room_polluted_def new_user_def)

section \<open>The host\<close>

text \<open>
  C1. In every reachable room the host that the message listener resolves is the first id
  of the join order whose participant is not a spectator: it stands at a position of
  \<open>userList\<close>, its participant is not a spectator, and every id before it belongs to a
  spectator. No host is resolved exactly when every participant is a spectator, which
  includes the empty room; then \<^verbatim>\<open>reveal\<close>, \<^verbatim>\<open>reset\<close>, \<^verbatim>\<open>setDeck\<close> and \<^verbatim>\<open>setCustomDeck\<close> from
  anyone return the room as it was and send nothing.
\<close>

theorem host_is_first_non_spectator:
  assumes "reachable L st"
  shows "(\<forall>h. resolveHost st = Some h \<longleftrightarrow>
            (\<exists>i < length (userList st). userList st ! i = h
               \<and> (\<exists>u. users st h = Some u \<and> \<not> isSpectator u)
               \<and> (\<forall>j < i. \<exists>u. users st (userList st ! j) = Some u \<and> isSpectator u)))
       \<and> (resolveHost st = None \<longleftrightarrow> (\<forall>i u. users st i = Some u \<longrightarrow> isSpectator u))
       \<and> (resolveHost st = None \<and> map_of kv ''type'' = Some (JStr t)
            \<and> t \<in> {''reveal'', ''reset'', ''setDeck'', ''setCustomDeck''} \<longrightarrow>
            on_message env sock uid (Parsed (JObj kv)) st = Some (st, []))"
proof -
  from reachable_list_ok[OF assms] have d: "set (userList st) = dom (users st)"
    by (simp add: list_ok_def)
  define Q where "Q i = (case users st i of None \<Rightarrow> False | Some u \<Rightarrow> \<not> isSpectator u)" for i
  have "(case users_get st i of None \<Rightarrow> False | Some r \<Rightarrow> \<not> spectator_of r) = Q i"
    if "i \<in> set (userList st)" for i
  proof -
    from that d obtain u where "users st i = Some u" by auto
    then show ?thesis by (simp add: Q_def users_get_entry)
  qed
  then have rh: "resolveHost st = List.find Q (userList st)"
    unfolding resolveHost_def by (intro find_cong) simp_all
  have p: "\<exists>u. users st (userList st ! j) = Some u" if "j < length (userList st)" for j
    using d that nth_mem[OF that] by (auto simp: dom_def)
  have 1: "resolveHost st = Some h \<longleftrightarrow>
            (\<exists>i < length (userList st). userList st ! i = h
               \<and> (\<exists>u. users st h = Some u \<and> \<not> isSpectator u)
               \<and> (\<forall>j < i. \<exists>u. users st (userList st ! j) = Some u \<and> isSpectator u))" for h
  proof
    assume "resolveHost st = Some h"
    then obtain i where i: "i < length (userList st)" "userList st ! i = h"
      and ph: "case users st h of None \<Rightarrow> False | Some u \<Rightarrow> \<not> isSpectator u"
      and b: "\<forall>j<i. \<not> (case users st (userList st ! j) of None \<Rightarrow> False | Some u \<Rightarrow> \<not> isSpectator u)"
      by (auto simp: rh Q_def find_Some_iff)
    have "\<exists>u. users st (userList st ! j) = Some u \<and> isSpectator u" if "j < i" for j
    proof -
      from that i have "j < length (userList st)" by simp
      from p[OF this] obtain u where "users st (userList st ! j) = Some u" by blast
      with b that show ?thesis by auto
    qed
    with i ph show "\<exists>i < length (userList st). userList st ! i = h
               \<and> (\<exists>u. users st h = Some u \<and> \<not> isSpectator u)
               \<and> (\<forall>j < i. \<exists>u. users st (userList st ! j) = Some u \<and> isSpectator u)"
      by (auto split: option.splits)
  next
    assume "\<exists>i < length (userList st). userList st ! i = h
               \<and> (\<exists>u. users st h = Some u \<and> \<not> isSpectator u)
               \<and> (\<forall>j < i. \<exists>u. users st (userList st ! j) = Some u \<and> isSpectator u)"
    then show "resolveHost st = Some h"
      unfolding rh Q_def find_Some_iff by fastforce
  qed
  have 2: "resolveHost st = None \<longleftrightarrow> (\<forall>i u. users st i = Some u \<longrightarrow> isSpectator u)"
    unfolding rh Q_def find_None_iff using d
    by (auto simp: dom_def split: option.splits)
  have 3: "on_message env sock uid (Parsed (JObj kv)) st = Some (st, [])"
    if "resolveHost st = None \<and> map_of kv ''type'' = Some (JStr t)
            \<and> t \<in> {''reveal'', ''reset'', ''setDeck'', ''setCustomDeck''}"
    using that by (auto simp: on_message_def dispatch_def get_prop_def split: option.splits)
  from 1 2 3 show ?thesis by blast
qed

theorem host_is_first_non_spectator_witness:
  "reachable [''alice'', ''bob''] room_ab \<and> resolveHost room_ab = Some ''alice''
   \<and> reachable [''bob''] room_b \<and> resolveHost room_b = None
   \<and> on_message no_fail 0 ''bob'' (Parsed (JObj [(''type'', JStr ''reset'')])) room_b
       = Some (room_b, [])"
proof -
  have a: "\<exists>i < length (userList room_ab). userList room_ab ! i = ''alice''
               \<and> (\<exists>u. users room_ab ''alice'' = Some u \<and> \<not> isSpectator u)
               \<and> (\<forall>j < i. \<exists>u. users room_ab (userList room_ab ! j) = Some u \<and> isSpectator u)"
    by (rule exI[of _ 0]) (simp add: room_ab_def new_user_def)
  have b: "\<forall>i u. users room_b i = Some u \<longrightarrow> isSpectator u"
    by (simp add: room_b_def new_user_def)
  from host_is_first_non_spectator[OF reachable_room_ab] a
  have "resolveHost room_ab = Some ''alice''" by blast
  moreover from host_is_first_non_spectator[OF reachable_room_b] b
  have n: "resolveHost room_b = None" by blast
  moreover from host_is_first_non_spectator[OF reachable_room_b,
      of "[(''type'', JStr ''reset'')]" "''reset''" no_fail 0 "''bob''"] n
  have "on_message no_fail 0 ''bob'' (Parsed (JObj [(''type'', JStr ''reset'')])) room_b
       = Some (room_b, [])"
    by simp
  ultimately show ?thesis using reachable_room_ab reachable_room_b by blast
qed

section \<open>Removing a session\<close>









end
